theory Spec2Isabelle
  imports Complex_Main "HOL-Library.Sublist"
begin

section \<open>JavaScript numbers\<close>

text \<open>
  The annotation page computes with JavaScript numbers. A finite number is modelled by the
  real it denotes (rounding is left out: arithmetic on finite values is exact), and the
  three special values of IEEE 754 are kept, since division never raises in JavaScript: it
  yields \<open>NaN\<close> or an infinity. Divisors that are zero are the sizes of a canvas or of a
  bounding rectangle, which are never negative, so a zero divisor is \<open>+0\<close>.
\<close>

datatype jsnum = Num real | PosInf | NegInf | NaN

fun js_sub :: "jsnum \<Rightarrow> jsnum \<Rightarrow> jsnum" where
  "js_sub NaN _ = NaN"
| "js_sub _ NaN = NaN"
| "js_sub (Num a) (Num b) = Num (a - b)"
| "js_sub (Num a) PosInf = NegInf"
| "js_sub (Num a) NegInf = PosInf"
| "js_sub PosInf PosInf = NaN"
| "js_sub PosInf _ = PosInf"
| "js_sub NegInf NegInf = NaN"
| "js_sub NegInf _ = NegInf"

definition inf_of_sign :: "real \<Rightarrow> jsnum" where
  "inf_of_sign s = (if s = 0 then NaN else if 0 < s then PosInf else NegInf)"

fun js_mul :: "jsnum \<Rightarrow> jsnum \<Rightarrow> jsnum" where
  "js_mul NaN _ = NaN"
| "js_mul _ NaN = NaN"
| "js_mul (Num a) (Num b) = Num (a * b)"
| "js_mul (Num a) PosInf = inf_of_sign a"
| "js_mul (Num a) NegInf = inf_of_sign (- a)"
| "js_mul PosInf (Num b) = inf_of_sign b"
| "js_mul NegInf (Num b) = inf_of_sign (- b)"
| "js_mul PosInf PosInf = PosInf"
| "js_mul PosInf NegInf = NegInf"
| "js_mul NegInf PosInf = NegInf"
| "js_mul NegInf NegInf = PosInf"

fun js_div :: "jsnum \<Rightarrow> jsnum \<Rightarrow> jsnum" where
  "js_div NaN _ = NaN"
| "js_div _ NaN = NaN"
| "js_div (Num a) (Num b) = (if b = 0 then inf_of_sign a else Num (a / b))"
| "js_div (Num a) _ = Num 0"
| "js_div PosInf (Num b) = (if 0 \<le> b then PosInf else NegInf)"
| "js_div NegInf (Num b) = (if 0 \<le> b then NegInf else PosInf)"
| "js_div _ _ = NaN"

fun js_abs :: "jsnum \<Rightarrow> jsnum" where
  "js_abs (Num a) = Num \<bar>a\<bar>"
| "js_abs PosInf = PosInf"
| "js_abs NegInf = PosInf"
| "js_abs NaN = NaN"

text \<open>The comparison \<open>a < b\<close>; every comparison with \<open>NaN\<close> is false.\<close>

fun js_lt :: "jsnum \<Rightarrow> jsnum \<Rightarrow> bool" where
  "js_lt NaN _ = False"
| "js_lt _ NaN = False"
| "js_lt (Num a) (Num b) = (a < b)"
| "js_lt (Num a) PosInf = True"
| "js_lt NegInf (Num b) = True"
| "js_lt NegInf PosInf = True"
| "js_lt _ _ = False"

definition js_gt :: "jsnum \<Rightarrow> jsnum \<Rightarrow> bool" where
  "js_gt a b = js_lt b a"

section \<open>Decimal rendering of an index\<close>

definition digit_char :: "nat \<Rightarrow> char" where
  "digit_char d = ''0123456789'' ! d"

fun show_nat :: "nat \<Rightarrow> string" where
  "show_nat n = (if n < 10 then [digit_char n] else show_nat (n div 10) @ [digit_char (n mod 10)])"

declare show_nat.simps [simp del]

section \<open>The annotation page: data\<close>

record ImageData =
  img_id :: string
  img_filename :: string
  original_name :: string
  img_width :: int
  img_height :: int
  img_path :: string

record BoundingBox =
  box_x :: jsnum
  box_y :: jsnum
  box_width :: jsnum
  box_height :: jsnum
  label :: string
  confidence :: jsnum
  class_id :: "int option"
  color :: "string option"
  attributes :: "string list option"

record Annotation =
  image_id :: string
  image_filename :: string
  image_width :: int
  image_height :: int
  bounding_boxes :: "BoundingBox list"
  total_shrimp :: nat

record ClassInfo =
  cls_id :: int
  cls_name :: string
  display_name :: string
  cls_color :: string
  description :: string

text \<open>
  The state of \<open>AnnotatePage\<close> that the handlers read and write (\<open>useState\<close> cells).
  \<open>selectedColor\<close> is \<open>None\<close> for \<open>null\<close>.
\<close>

record annotate_state =
  images :: "ImageData list"
  currentImageIndex :: int
  boundingBoxes :: "BoundingBox list"
  isDrawing :: bool
  currentBox :: "BoundingBox option"
  availableClasses :: "string \<rightharpoonup> ClassInfo"
  selectedClass :: string
  selectedColor :: "string option"
  selectedAttributes :: "string list"

text \<open>
  What a handler reads from the page: the canvas element behind \<open>canvasRef\<close> (its
  \<open>width\<close> and \<open>height\<close> attributes and its bounding client rectangle), whether
  \<open>imageRef\<close> is set, and whether the canvas gives a 2d context.
\<close>

record canvas =
  canvas_width :: jsnum
  canvas_height :: jsnum
  rect_left :: jsnum
  rect_top :: jsnum
  rect_width :: jsnum
  rect_height :: jsnum

record dom =
  canvasRef :: "canvas option"
  imageRef :: bool
  context2d :: bool

record mouse_event =
  clientX :: jsnum
  clientY :: jsnum

section \<open>The annotation page: pointer handlers\<close>

text \<open>
  \<open>handleMouseDown\<close> and \<open>handleMouseMove\<close> start with the same lines: the pointer
  position in canvas pixels (\<open>x\<close>, \<open>y\<close> in the source) and its normalisation by the canvas size
  (\<open>normalizedX\<close>, \<open>normalizedY\<close>).
\<close>

definition canvasX :: "canvas \<Rightarrow> mouse_event \<Rightarrow> jsnum" where
  "canvasX c e =
     (let scaleX = js_div (canvas_width c) (rect_width c)
      in js_mul (js_sub (clientX e) (rect_left c)) scaleX)"

definition canvasY :: "canvas \<Rightarrow> mouse_event \<Rightarrow> jsnum" where
  "canvasY c e =
     (let scaleY = js_div (canvas_height c) (rect_height c)
      in js_mul (js_sub (clientY e) (rect_top c)) scaleY)"

definition normalizedX :: "canvas \<Rightarrow> mouse_event \<Rightarrow> jsnum" where
  "normalizedX c e = js_div (canvasX c e) (canvas_width c)"

definition normalizedY :: "canvas \<Rightarrow> mouse_event \<Rightarrow> jsnum" where
  "normalizedY c e = js_div (canvasY c e) (canvas_height c)"

definition handleMouseDown :: "dom \<Rightarrow> mouse_event \<Rightarrow> annotate_state \<Rightarrow> annotate_state" where
  "handleMouseDown d e st =
     (case canvasRef d of
        None \<Rightarrow> st
      | Some c \<Rightarrow>
          if \<not> imageRef d then st
          else st\<lparr>isDrawing := True,
                  currentBox := Some \<lparr>box_x = normalizedX c e, box_y = normalizedY c e,
                    box_width = Num 0, box_height = Num 0, label = ''shrimp'',
                    confidence = Num 1, class_id = None, color = None, attributes = None\<rparr>\<rparr>)"

definition handleMouseMove :: "dom \<Rightarrow> mouse_event \<Rightarrow> annotate_state \<Rightarrow> annotate_state" where
  "handleMouseMove d e st =
     (case (isDrawing st, currentBox st, canvasRef d) of
        (True, Some cb, Some c) \<Rightarrow>
          (let width = js_sub (normalizedX c e) (box_x cb);
               height = js_sub (normalizedY c e) (box_y cb)
           in st\<lparr>currentBox := Some (cb\<lparr>
                   box_width := js_abs width,
                   box_height := js_abs height,
                   box_x := (if js_lt width (Num 0) then normalizedX c e else box_x cb),
                   box_y := (if js_lt height (Num 0) then normalizedY c e else box_y cb)\<rparr>)\<rparr>)
      | _ \<Rightarrow> st)"

text \<open>The box that \<open>handleMouseUp\<close> builds from the candidate and the current selection.\<close>

definition newBox :: "annotate_state \<Rightarrow> BoundingBox \<Rightarrow> BoundingBox" where
  "newBox st cb =
     cb\<lparr>label := selectedClass st,
        class_id := map_option cls_id (availableClasses st (selectedClass st)),
        color := (case selectedColor st of
                    None \<Rightarrow> None
                  | Some c \<Rightarrow> if c = [] then None else Some c),
        attributes := Some (if 0 < length (selectedAttributes st) then selectedAttributes st else [])\<rparr>"

definition handleMouseUp :: "annotate_state \<Rightarrow> annotate_state" where
  "handleMouseUp st =
     (case (isDrawing st, currentBox st) of
        (True, Some cb) \<Rightarrow>
          (if js_gt (box_width cb) (Num (1 / 100)) \<and> js_gt (box_height cb) (Num (1 / 100))
           then st\<lparr>boundingBoxes := boundingBoxes st @ [newBox st cb]\<rparr>
           else st)\<lparr>isDrawing := False, currentBox := None\<rparr>
      | _ \<Rightarrow> st)"

text \<open>
  The earlier version of the page has no class selection: its \<open>handleMouseUp\<close> appends
  the candidate as it is.
\<close>

definition handleMouseUp_basic :: "annotate_state \<Rightarrow> annotate_state" where
  "handleMouseUp_basic st =
     (case (isDrawing st, currentBox st) of
        (True, Some cb) \<Rightarrow>
          (if js_gt (box_width cb) (Num (1 / 100)) \<and> js_gt (box_height cb) (Num (1 / 100))
           then st\<lparr>boundingBoxes := boundingBoxes st @ [cb]\<rparr>
           else st)\<lparr>isDrawing := False, currentBox := None\<rparr>
      | _ \<Rightarrow> st)"

text \<open>
  A pointer gesture: pointer-down, the pointer-moves in order, pointer-up (the canvas also
  calls \<open>handleMouseUp\<close> when the pointer leaves it). Every event comes with what the page
  shows when it fires, since the canvas can be resized between two events. The page is
  rendered again between two events, so each handler sees the state the previous one left.
\<close>

definition gesture ::
  "dom \<times> mouse_event \<Rightarrow> (dom \<times> mouse_event) list \<Rightarrow> annotate_state \<Rightarrow> annotate_state" where
  "gesture down moves st =
     handleMouseUp
       (foldl (\<lambda>s (d, e). handleMouseMove d e s) (handleMouseDown (fst down) (snd down) st) moves)"

section \<open>The annotation page: box list, save, navigation\<close>

text \<open>\<open>Array.prototype.filter\<close> with a callback that also takes the index.\<close>

definition filter_index :: "('a \<Rightarrow> nat \<Rightarrow> bool) \<Rightarrow> 'a list \<Rightarrow> 'a list" where
  "filter_index p xs = map fst (filter (\<lambda>(b, i). p b i) (zip xs [0..<length xs]))"

definition deleteBox :: "int \<Rightarrow> annotate_state \<Rightarrow> annotate_state" where
  "deleteBox index st =
     st\<lparr>boundingBoxes := filter_index (\<lambda>_ i. int i \<noteq> index) (boundingBoxes st)\<rparr>"

text \<open>
  \<open>saveAnnotation\<close>: the record posted to the persistence endpoint, \<open>None\<close> when nothing is
  posted (no images; or no image at the current index, where reading \<open>currentImage.id\<close>
  throws inside the \<open>try\<close> block and the handler reports the failure).
\<close>

definition saveAnnotation :: "annotate_state \<Rightarrow> Annotation option" where
  "saveAnnotation st =
     (if length (images st) = 0 then None
      else if 0 \<le> currentImageIndex st \<and> currentImageIndex st < int (length (images st)) then
        (let currentImage = images st ! nat (currentImageIndex st)
         in Some \<lparr>image_id = img_id currentImage,
                  image_filename = img_filename currentImage,
                  image_width = img_width currentImage,
                  image_height = img_height currentImage,
                  bounding_boxes = boundingBoxes st,
                  total_shrimp = length (boundingBoxes st)\<rparr>)
      else None)"

definition nextImage :: "annotate_state \<Rightarrow> annotate_state" where
  "nextImage st =
     (if currentImageIndex st < int (length (images st)) - 1
      then st\<lparr>currentImageIndex := currentImageIndex st + 1\<rparr> else st)"

definition prevImage :: "annotate_state \<Rightarrow> annotate_state" where
  "prevImage st =
     (if currentImageIndex st > 0
      then st\<lparr>currentImageIndex := currentImageIndex st - 1\<rparr> else st)"

section \<open>The annotation page: the renderer\<close>

text \<open>
  What \<open>drawCanvas\<close> puts on the canvas for one box: the rectangle it fills and strokes,
  the two styles, and the label text with its position.
\<close>

record draw_instruction =
  rect_px_x :: jsnum
  rect_px_y :: jsnum
  rect_px_width :: jsnum
  rect_px_height :: jsnum
  strokeStyle :: string
  fillStyle :: string
  labelText :: string
  label_px_x :: jsnum
  label_px_y :: jsnum

text \<open>
  The class of a box is looked up under its label (\<open>shrimp\<close> for an empty label); the name
  shown is the class's display name, or the label when there is none.
\<close>

definition classInfoOf :: "(string \<rightharpoonup> ClassInfo) \<Rightarrow> BoundingBox \<Rightarrow> ClassInfo option" where
  "classInfoOf classes box = classes (if label box = [] then ''shrimp'' else label box)"

definition displayName :: "(string \<rightharpoonup> ClassInfo) \<Rightarrow> BoundingBox \<Rightarrow> string" where
  "displayName classes box =
     (case classInfoOf classes box of
        None \<Rightarrow> label box
      | Some ci \<Rightarrow> if display_name ci = [] then label box else display_name ci)"

text \<open>The body of the \<open>forEach\<close> callback, for the box at position \<open>index\<close>.\<close>

definition drawBox :: "canvas \<Rightarrow> (string \<rightharpoonup> ClassInfo) \<Rightarrow> BoundingBox \<Rightarrow> nat \<Rightarrow> draw_instruction" where
  "drawBox c classes box index =
     (let x = js_mul (box_x box) (canvas_width c);
          y = js_mul (box_y box) (canvas_height c);
          width = js_mul (box_width box) (canvas_width c);
          height = js_mul (box_height box) (canvas_height c);
          color = (case classInfoOf classes box of
                     None \<Rightarrow> ''#10B981''
                   | Some ci \<Rightarrow> if cls_color ci = [] then ''#10B981'' else cls_color ci)
      in \<lparr>rect_px_x = x, rect_px_y = y, rect_px_width = width, rect_px_height = height,
          strokeStyle = color, fillStyle = color @ ''1A'',
          labelText = displayName classes box @ '' '' @ show_nat (index + 1),
          label_px_x = x, label_px_y = js_sub y (Num 5)\<rparr>)"

text \<open>The earlier version of the page labels a box with its \<open>label\<close> field.\<close>

definition drawBox_basic :: "canvas \<Rightarrow> BoundingBox \<Rightarrow> nat \<Rightarrow> draw_instruction" where
  "drawBox_basic c box index =
     (let x = js_mul (box_x box) (canvas_width c);
          y = js_mul (box_y box) (canvas_height c);
          width = js_mul (box_width box) (canvas_width c);
          height = js_mul (box_height box) (canvas_height c)
      in \<lparr>rect_px_x = x, rect_px_y = y, rect_px_width = width, rect_px_height = height,
          strokeStyle = ''#10B981'', fillStyle = ''rgba(16, 185, 129, 0.1)'',
          labelText = label box @ '' '' @ show_nat (index + 1),
          label_px_x = x, label_px_y = js_sub y (Num 5)\<rparr>)"

definition allBoxes :: "annotate_state \<Rightarrow> BoundingBox list" where
  "allBoxes st =
     (case currentBox st of Some cb \<Rightarrow> boundingBoxes st @ [cb] | None \<Rightarrow> boundingBoxes st)"

text \<open>
  \<open>drawCanvas\<close>: \<open>None\<close> when it returns before drawing (no canvas, no image, no context),
  otherwise the boxes drawn, in order.
\<close>

definition drawCanvas :: "dom \<Rightarrow> annotate_state \<Rightarrow> draw_instruction list option" where
  "drawCanvas d st =
     (case canvasRef d of
        None \<Rightarrow> None
      | Some c \<Rightarrow>
          if \<not> imageRef d \<or> \<not> context2d d then None
          else Some (map (\<lambda>(box, index). drawBox c (availableClasses st) box index)
                       (zip (allBoxes st) [0..<length (allBoxes st)])))"

definition drawCanvas_basic :: "dom \<Rightarrow> annotate_state \<Rightarrow> draw_instruction list option" where
  "drawCanvas_basic d st =
     (case canvasRef d of
        None \<Rightarrow> None
      | Some c \<Rightarrow>
          if \<not> imageRef d \<or> \<not> context2d d then None
          else Some (map (\<lambda>(box, index). drawBox_basic c box index)
                       (zip (allBoxes st) [0..<length (allBoxes st)])))"

section \<open>The training progress dialog\<close>

record TrainingUpdate =
  upd_type :: string
  status :: string
  progress :: jsnum
  message :: string
  current_epoch :: nat
  total_epochs :: nat
  loss :: "jsnum option"
  accuracy :: "jsnum option"

text \<open>
  The body of the answer of the status endpoint. The result of a request is \<open>None\<close> when
  \<open>fetch\<close> or the decoding of the answer throws.
\<close>

record status_response =
  resp_success :: bool
  resp_status :: "TrainingUpdate option"

text \<open>The \<open>useState\<close> cells and the two refs of \<open>TrainingProgress\<close>.\<close>

record progress_state =
  trainingData :: "TrainingUpdate option"
  logs :: "string list"
  prevStatusRef :: "string option"
  prevEpochRef :: "nat option"

definition initial_progress :: progress_state where
  "initial_progress = \<lparr>trainingData = None, logs = [], prevStatusRef = None, prevEpochRef = None\<rparr>"

text \<open>
  The log line of a status. \<open>now\<close> is what \<open>new Date().toLocaleTimeString()\<close> gives when
  the answer is handled, and \<open>toFixed\<close> is the runtime's \<open>Number.prototype.toFixed\<close>.
\<close>

definition logMessage :: "(jsnum \<Rightarrow> nat \<Rightarrow> string) \<Rightarrow> string \<Rightarrow> TrainingUpdate \<Rightarrow> string" where
  "logMessage toFixed now s =
     ''['' @ now @ ''] '' @ message s @
     (if status s = ''training'' \<and> 0 < current_epoch s
      then '' - Epoch '' @ show_nat (current_epoch s) @ ''/'' @ show_nat (total_epochs s) @
           (case loss s of Some l \<Rightarrow> '' - Loss: '' @ toFixed l 4 | None \<Rightarrow> [])
      else [])"

text \<open>The updater given to \<open>setLogs\<close>; \<open>slice(-50)\<close> keeps the last 50 lines.\<close>

definition appendLog :: "string \<Rightarrow> string list \<Rightarrow> string list" where
  "appendLog line prev =
     (if 0 < length prev \<and> last prev = line then prev
      else (let newLogs = prev @ [line] in drop (length newLogs - 50) newLogs))"

definition shouldLog :: "progress_state \<Rightarrow> TrainingUpdate \<Rightarrow> bool" where
  "shouldLog st s =
     (prevStatusRef st \<noteq> Some (status s) \<or>
      prevEpochRef st \<noteq> Some (current_epoch s) \<or>
      (status s = ''preparing'' \<and> prevStatusRef st \<noteq> Some ''preparing'') \<or>
      (status s = ''training'' \<and> prevEpochRef st = None))"

text \<open>\<open>pollTrainingStatus\<close>, from the result of the request on.\<close>

definition pollTrainingStatus ::
  "(jsnum \<Rightarrow> nat \<Rightarrow> string) \<Rightarrow> string \<Rightarrow> status_response option \<Rightarrow> progress_state \<Rightarrow> progress_state" where
  "pollTrainingStatus toFixed now result st =
     (case result of
        None \<Rightarrow> st
      | Some data \<Rightarrow>
          (case (resp_success data, resp_status data) of
             (True, Some s) \<Rightarrow>
               (let st1 = st\<lparr>trainingData := Some s\<rparr>
                in if shouldLog st s
                   then st1\<lparr>logs := appendLog (logMessage toFixed now s) (logs st),
                            prevStatusRef := Some (status s),
                            prevEpochRef := Some (current_epoch s)\<rparr>
                   else st1)
           | _ \<Rightarrow> st))"

text \<open>
  A run of polls, each with its time stamp and the result of its request, and the statuses
  it observes: those of the results that carry one.
\<close>

definition run_polls ::
  "(jsnum \<Rightarrow> nat \<Rightarrow> string) \<Rightarrow> (string \<times> status_response option) list \<Rightarrow> progress_state \<Rightarrow> progress_state" where
  "run_polls toFixed polls st = foldl (\<lambda>s (now, result). pollTrainingStatus toFixed now result s) st polls"

fun observation :: "status_response option \<Rightarrow> TrainingUpdate option" where
  "observation None = None"
| "observation (Some data) = (if resp_success data then resp_status data else None)"

definition observed :: "(string \<times> status_response option) list \<Rightarrow> TrainingUpdate list" where
  "observed polls = List.map_filter (\<lambda>(now, result). observation result) polls"

definition answer :: "TrainingUpdate \<Rightarrow> status_response option" where
  "answer s = Some \<lparr>resp_success = True, resp_status = Some s\<rparr>"

text \<open>
  The dialog as a component: the \<open>isVisible\<close> prop of its last render, whether its interval
  timer is registered, and its state. The effect depends on \<open>isVisible\<close> alone. When the
  prop changes, the clean-up of the previous effect clears the timer and the effect runs:
  hidden, it resets the two refs; visible, it registers the timer and polls at once.
  A step gives the new component and the number of requests it issues.
\<close>

record progress_component =
  tp_isVisible :: bool
  tp_interval :: bool
  tp_state :: progress_state

datatype progress_event =
    Render bool string "status_response option"
  | Tick string "status_response option"

definition runEffect ::
  "(jsnum \<Rightarrow> nat \<Rightarrow> string) \<Rightarrow> string \<Rightarrow> status_response option \<Rightarrow> progress_component \<Rightarrow> progress_component \<times> nat" where
  "runEffect toFixed now result c =
     (if \<not> tp_isVisible c
      then (c\<lparr>tp_interval := False,
               tp_state := (tp_state c)\<lparr>prevStatusRef := None, prevEpochRef := None\<rparr>\<rparr>, 0)
      else (c\<lparr>tp_interval := True,
               tp_state := pollTrainingStatus toFixed now result (tp_state c)\<rparr>, 1))"

definition mount ::
  "(jsnum \<Rightarrow> nat \<Rightarrow> string) \<Rightarrow> bool \<Rightarrow> string \<Rightarrow> status_response option \<Rightarrow> progress_component \<times> nat" where
  "mount toFixed isVisible now result =
     runEffect toFixed now result
       \<lparr>tp_isVisible = isVisible, tp_interval = False, tp_state = initial_progress\<rparr>"

fun progress_step ::
  "(jsnum \<Rightarrow> nat \<Rightarrow> string) \<Rightarrow> progress_component \<Rightarrow> progress_event \<Rightarrow> progress_component \<times> nat" where
  "progress_step toFixed c (Render isVisible now result) =
     (if isVisible = tp_isVisible c then (c, 0)
      else runEffect toFixed now result (c\<lparr>tp_isVisible := isVisible, tp_interval := False\<rparr>))"
| "progress_step toFixed c (Tick now result) =
     (if tp_interval c
      then (c\<lparr>tp_state := pollTrainingStatus toFixed now result (tp_state c)\<rparr>, 1)
      else (c, 0))"

definition progress_run ::
  "(jsnum \<Rightarrow> nat \<Rightarrow> string) \<Rightarrow> progress_component \<Rightarrow> progress_event list \<Rightarrow> progress_component" where
  "progress_run toFixed c evs = foldl (\<lambda>c ev. fst (progress_step toFixed c ev)) c evs"

section \<open>The training page\<close>

record TrainingStatus =
  ts_status :: string
  ts_progress :: jsnum
  ts_current_epoch :: nat
  ts_total_epochs :: nat
  ts_loss :: "jsnum option"
  ts_accuracy :: "jsnum option"
  ts_message :: string
  model_path :: "string option"

record page_response =
  page_success :: bool
  page_status :: TrainingStatus

text \<open>
  The state of \<open>TrainPage\<close> that its polling reads and writes, and whether its interval
  timer is registered. The polling effect depends on \<open>isTraining\<close> and on the status: its
  clean-up clears the timer, and it registers one while training is under way. So the timer
  is registered exactly under \<open>pollingCondition\<close> in every state the page reaches.
\<close>

record train_page =
  isTraining :: bool
  trainingStatus :: TrainingStatus
  showTrainingProgress :: bool
  page_interval :: bool

definition pollingCondition :: "train_page \<Rightarrow> bool" where
  "pollingCondition p =
     (isTraining p \<or> ts_status (trainingStatus p) = ''preparing''
      \<or> ts_status (trainingStatus p) = ''training'')"

definition pollingEffect :: "train_page \<Rightarrow> train_page" where
  "pollingEffect p = p\<lparr>page_interval := pollingCondition p\<rparr>"

text \<open>The render after the state went from \<open>p\<close> to \<open>p'\<close>: the effect runs if a dependency changed.\<close>

definition afterUpdate :: "train_page \<Rightarrow> train_page \<Rightarrow> train_page" where
  "afterUpdate p p' =
     (if isTraining p' = isTraining p
         \<and> ts_status (trainingStatus p') = ts_status (trainingStatus p)
      then p' else pollingEffect p')"

text \<open>\<open>fetchTrainingStatus\<close>, from the result of the request on, with the render it triggers.\<close>

definition fetchTrainingStatus :: "page_response option \<Rightarrow> train_page \<Rightarrow> train_page" where
  "fetchTrainingStatus result p =
     (case result of
        None \<Rightarrow> p
      | Some data \<Rightarrow>
          if page_success data then
            (let s = page_status data;
                 p1 = p\<lparr>trainingStatus := s\<rparr>;
                 p2 = (if ts_status s = ''completed'' \<or> ts_status s = ''failed''
                       then p1\<lparr>isTraining := False\<rparr> else p1)
             in afterUpdate p p2)
          else p)"

text \<open>One second elapses: the new page and the number of requests issued.\<close>

definition page_tick :: "page_response option \<Rightarrow> train_page \<Rightarrow> train_page \<times> nat" where
  "page_tick result p =
     (if page_interval p then (fetchTrainingStatus result p, 1) else (p, 0))"

section \<open>Predicates on pointer events and candidates\<close>

text \<open>
  The event finds a canvas of positive finite size, shown in a rectangle of positive finite
  size, and the pointer is inside that rectangle.
\<close>

definition pointer_inside :: "dom \<times> mouse_event \<Rightarrow> bool" where
  "pointer_inside de =
     (case canvasRef (fst de) of
        None \<Rightarrow> False
      | Some c \<Rightarrow>
          imageRef (fst de) \<and>
          (case (canvas_width c, canvas_height c, rect_width c, rect_height c) of
             (Num cw, Num ch, Num rw, Num rh) \<Rightarrow>
               0 < cw \<and> 0 < ch \<and> 0 < rw \<and> 0 < rh \<and>
               (case (rect_left c, rect_top c, clientX (snd de), clientY (snd de)) of
                  (Num l, Num t, Num cx, Num cy) \<Rightarrow>
                    l \<le> cx \<and> cx \<le> l + rw \<and> t \<le> cy \<and> cy \<le> t + rh
                | _ \<Rightarrow> False)
           | _ \<Rightarrow> False))"

text \<open>The box has finite, non-negative sides and lies inside the unit square.\<close>

definition in_unit_square :: "BoundingBox \<Rightarrow> bool" where
  "in_unit_square b =
     (case (box_x b, box_y b, box_width b, box_height b) of
        (Num x, Num y, Num w, Num h) \<Rightarrow>
          0 \<le> x \<and> 0 \<le> y \<and> 0 \<le> w \<and> 0 \<le> h \<and> x + w \<le> 1 \<and> y + h \<le> 1
      | _ \<Rightarrow> False)"

text \<open>
  A candidate is being drawn whose anchor has a \<open>NaN\<close> coordinate, with the matching side
  still zero or \<open>NaN\<close>.
\<close>

definition nan_anchored :: "annotate_state \<Rightarrow> bool" where
  "nan_anchored s =
     (isDrawing s \<and>
      (case currentBox s of
         None \<Rightarrow> False
       | Some cb \<Rightarrow>
           (box_x cb = NaN \<and> (box_width cb = Num 0 \<or> box_width cb = NaN)) \<or>
           (box_y cb = NaN \<and> (box_height cb = Num 0 \<or> box_height cb = NaN))))"

text \<open>A coordinate or a side of the box is \<open>NaN\<close>.\<close>

definition has_nan :: "BoundingBox \<Rightarrow> bool" where
  "has_nan b = (box_x b = NaN \<or> box_y b = NaN \<or> box_width b = NaN \<or> box_height b = NaN)"

text \<open>
  A candidate is being drawn, and where its corner has a \<open>NaN\<close> coordinate the matching
  side is zero or \<open>NaN\<close>.
\<close>

definition nan_checked :: "annotate_state \<Rightarrow> bool" where
  "nan_checked s =
     (isDrawing s \<and>
      (case currentBox s of
         None \<Rightarrow> False
       | Some cb \<Rightarrow>
           (box_x cb = NaN \<longrightarrow> box_width cb = Num 0 \<or> box_width cb = NaN) \<and>
           (box_y cb = NaN \<longrightarrow> box_height cb = Num 0 \<or> box_height cb = NaN)))"

section \<open>Example data\<close>

definition example_image :: ImageData where
  "example_image = \<lparr>img_id = ''img-1'', img_filename = ''img-1.jpg'', original_name = ''tank.jpg'',
     img_width = 200, img_height = 200, img_path = ''uploads/img-1.jpg''\<rparr>"

definition example_box :: BoundingBox where
  "example_box = \<lparr>box_x = Num (1 / 4), box_y = Num (1 / 4), box_width = Num (1 / 4),
     box_height = Num (1 / 4), label = ''shrimp'', confidence = Num 1, class_id = Some 0,
     color = None, attributes = Some []\<rparr>"

definition example_classes :: "string \<rightharpoonup> ClassInfo" where
  "example_classes =
     [''shrimp'' \<mapsto> \<lparr>cls_id = 0, cls_name = ''shrimp'', display_name = ''Shrimp'',
                      cls_color = ''#10B981'', description = ''Regular shrimp''\<rparr>,
      ''adult'' \<mapsto> \<lparr>cls_id = 1, cls_name = ''adult'', display_name = ''Adult'',
                     cls_color = ''#3B82F6'', description = ''Adult shrimp''\<rparr>]"

definition example_state :: annotate_state where
  "example_state = \<lparr>images = [example_image, example_image], currentImageIndex = 1,
     boundingBoxes = [example_box, example_box], isDrawing = False, currentBox = None,
     availableClasses = example_classes, selectedClass = ''shrimp'', selectedColor = None,
     selectedAttributes = []\<rparr>"

definition example_canvas :: canvas where
  "example_canvas = \<lparr>canvas_width = Num 200, canvas_height = Num 200, rect_left = Num 0,
     rect_top = Num 0, rect_width = Num 200, rect_height = Num 200\<rparr>"

definition example_dom :: dom where
  "example_dom = \<lparr>canvasRef = Some example_canvas, imageRef = True, context2d = True\<rparr>"

definition pointer_at :: "real \<Rightarrow> real \<Rightarrow> mouse_event" where
  "pointer_at px py = \<lparr>clientX = Num px, clientY = Num py\<rparr>"

text \<open>No box yet, nothing being drawn; the class selected is \<open>shrimp\<close>.\<close>

definition empty_state :: annotate_state where
  "empty_state = \<lparr>images = [example_image], currentImageIndex = 0, boundingBoxes = [],
     isDrawing = False, currentBox = None, availableClasses = example_classes,
     selectedClass = ''shrimp'', selectedColor = None, selectedAttributes = []\<rparr>"

text \<open>Two boxes of type \<open>shrimp\<close>, then one of type \<open>adult\<close>.\<close>

definition labelled_state :: annotate_state where
  "labelled_state = empty_state\<lparr>boundingBoxes :=
     [example_box, example_box\<lparr>box_x := Num (1 / 2)\<rparr>,
      example_box\<lparr>box_y := Num (1 / 2), label := ''adult'', class_id := Some 1\<rparr>]\<rparr>"

text \<open>A canvas whose \<open>width\<close> attribute is zero, shown in a rectangle 200 wide.\<close>

definition zero_width_canvas :: canvas where
  "zero_width_canvas = example_canvas\<lparr>canvas_width := Num 0\<rparr>"

definition at_example :: "real \<Rightarrow> real \<Rightarrow> dom \<times> mouse_event" where
  "at_example px py = (example_dom, pointer_at px py)"

text \<open>A state in the middle of a gesture, with a candidate of the given width and height.\<close>

definition drawing_state :: "real \<Rightarrow> real \<Rightarrow> annotate_state" where
  "drawing_state w h = empty_state\<lparr>isDrawing := True,
     currentBox := Some \<lparr>box_x = Num (1 / 4), box_y = Num (1 / 4), box_width = Num w,
       box_height = Num h, label = ''shrimp'', confidence = Num 1, class_id = None,
       color = None, attributes = None\<rparr>\<rparr>"

definition zero_width_dom :: dom where
  "zero_width_dom = \<lparr>canvasRef = Some zero_width_canvas, imageRef = True, context2d = True\<rparr>"

definition example_toFixed :: "jsnum \<Rightarrow> nat \<Rightarrow> string" where
  "example_toFixed v digits = ''0.1234''"

definition example_update :: "string \<Rightarrow> nat \<Rightarrow> string \<Rightarrow> TrainingUpdate" where
  "example_update st epoch msg = \<lparr>upd_type = ''training_update'', status = st, progress = Num 0,
     message = msg, current_epoch = epoch, total_epochs = 100, loss = None, accuracy = None\<rparr>"

text \<open>The dialog is mounted visible and the first answer says that training is completed.\<close>

definition completed_dialog :: progress_component where
  "completed_dialog =
     fst (mount example_toFixed True ''10:00:00''
            (answer (example_update ''completed'' 100 ''Training completed'')))"

definition example_training_status :: "string \<Rightarrow> TrainingStatus" where
  "example_training_status st = \<lparr>ts_status = st, ts_progress = Num 0, ts_current_epoch = 1,
     ts_total_epochs = 100, ts_loss = None, ts_accuracy = None, ts_message = ''Training'',
     model_path = None\<rparr>"

definition training_page :: train_page where
  "training_page = \<lparr>isTraining = True, trainingStatus = example_training_status ''training'',
     showTrainingProgress = False, page_interval = True\<rparr>"

text \<open>The six polls of the status sequence: preparing twice, epoch 1 twice, epoch 2, completed.\<close>

definition example_polls :: "(string \<times> status_response option) list" where
  "example_polls =
     [(''10:00:00'', answer (example_update ''preparing'' 0 ''Preparing dataset'')),
      (''10:00:01'', answer (example_update ''preparing'' 0 ''Preparing dataset'')),
      (''10:00:02'', answer (example_update ''training'' 1 ''Training'')),
      (''10:00:03'', answer (example_update ''training'' 1 ''Training'')),
      (''10:00:04'', answer (example_update ''training'' 2 ''Training'')),
      (''10:00:05'', answer (example_update ''completed'' 2 ''Training completed''))]"

text \<open>The dialog after one more tick and after it was hidden.\<close>

definition hidden_dialog :: progress_component where
  "hidden_dialog =
     progress_run example_toFixed completed_dialog [Tick ''10:00:01'' None, Render False ''10:00:02'' None]"

text \<open>
  The dialog that observed \<open>completed\<close> is hidden and shown again; the poll on showing
  observes the same status.
\<close>

definition reshown_dialog :: progress_component where
  "reshown_dialog =
     progress_run example_toFixed completed_dialog
       [Render False ''10:00:01'' None,
        Render True ''10:00:02'' (answer (example_update ''completed'' 100 ''Training completed''))]"

section \<open>Properties of the box list, of saving and of navigation\<close>

lemma filter_zip_upt_neq:
  "map fst (filter (\<lambda>(b, j). int j \<noteq> int i) (zip xs [k..<k + length xs]))
     = (if i < k then xs else take (i - k) xs @ drop (Suc (i - k)) xs)"
proof (induction xs arbitrary: k)
  case Nil
  then show ?case by simp
next
  case (Cons a xs)
  have up: "[k..<k + length (a # xs)] = k # [Suc k..<Suc k + length xs]"
    by (subst upt_rec) simp
  consider "i < k" | "i = k" | "k < i" by linarith
  then show ?case
  proof cases
    case 1
    with Cons.IH[of "Suc k"] show ?thesis unfolding up by simp
  next
    case 2
    with Cons.IH[of "Suc k"] show ?thesis unfolding up by simp
  next
    case 3
    then have "i - k = Suc (i - Suc k)" by simp
    with 3 Cons.IH[of "Suc k"] show ?thesis unfolding up by simp
  qed
qed

lemma filter_index_neq:
  "filter_index (\<lambda>_ j. int j \<noteq> int i) xs = take i xs @ drop (Suc i) xs"
  using filter_zip_upt_neq[of i xs 0] by (simp add: filter_index_def)

lemma subseq_filter_index: "subseq (filter_index p xs) xs"
proof -
  let ?zs = "zip xs [0..<length xs]"
  have "subseq (map fst (filter (\<lambda>(b, i). p b i) ?zs)) (map fst ?zs)"
    by (rule subseq_map) simp
  then show ?thesis by (simp add: filter_index_def)
qed

lemma filter_index_out_of_range:
  "index < 0 \<or> int (length xs) \<le> index \<Longrightarrow> filter_index (\<lambda>_ j. int j \<noteq> index) xs = xs"
proof -
  assume a: "index < 0 \<or> int (length xs) \<le> index"
  have "filter (\<lambda>(b, j). int j \<noteq> index) (zip xs [0..<length xs]) = zip xs [0..<length xs]"
    by (rule filter_True) (use a in \<open>auto dest!: set_zip_rightD\<close>)
  then show ?thesis by (simp add: filter_index_def)
qed

lemma count_list_remove_nth:
  "i < length xs \<Longrightarrow> count_list (take i xs @ drop (Suc i) xs) b
     = count_list xs b - (if xs ! i = b then 1 else 0)"
proof -
  assume "i < length xs"
  then have "xs = take i xs @ xs ! i # drop (Suc i) xs"
    by (simp add: id_take_nth_drop)
  then have "count_list xs b = count_list (take i xs @ xs ! i # drop (Suc i) xs) b"
    by simp
  then show ?thesis by simp
qed

text \<open>
  Claim C7, as amended. \<open>deleteBox\<close> with an index inside the list removes exactly the
  element at that index: the result is the list without position \<open>index\<close>, one shorter,
  a subsequence of the old list (so the remaining boxes keep their relative order), and it
  holds one occurrence fewer of the deleted box. When the deleted box occurred once, no
  equal box is left. The box list may hold equal boxes, and then one is left.
\<close>

theorem deleteBox_removes_one_occurrence:
  assumes "0 \<le> index" and "index < int (length (boundingBoxes st))"
  shows "boundingBoxes (deleteBox index st)
           = take (nat index) (boundingBoxes st) @ drop (Suc (nat index)) (boundingBoxes st)
       \<and> length (boundingBoxes (deleteBox index st)) = length (boundingBoxes st) - 1
       \<and> subseq (boundingBoxes (deleteBox index st)) (boundingBoxes st)
       \<and> count_list (boundingBoxes (deleteBox index st)) (boundingBoxes st ! nat index)
           = count_list (boundingBoxes st) (boundingBoxes st ! nat index) - 1
       \<and> (count_list (boundingBoxes st) (boundingBoxes st ! nat index) = 1
            \<longrightarrow> boundingBoxes st ! nat index \<notin> set (boundingBoxes (deleteBox index st)))"
proof -
  let ?bs = "boundingBoxes st" and ?i = "nat index"
  from assms have i: "?i < length ?bs" and idx: "index = int ?i" by simp_all
  have eq: "boundingBoxes (deleteBox index st) = take ?i ?bs @ drop (Suc ?i) ?bs"
    unfolding deleteBox_def using filter_index_neq[of ?i ?bs] idx by simp
  have len: "length (take ?i ?bs @ drop (Suc ?i) ?bs) = length ?bs - 1"
    using i by simp
  have sub: "subseq (boundingBoxes (deleteBox index st)) ?bs"
    by (simp add: deleteBox_def subseq_filter_index)
  have cnt: "count_list (take ?i ?bs @ drop (Suc ?i) ?bs) (?bs ! ?i) = count_list ?bs (?bs ! ?i) - 1"
    using count_list_remove_nth[OF i, of "?bs ! ?i"] by simp
  have "count_list ?bs (?bs ! ?i) = 1 \<longrightarrow> ?bs ! ?i \<notin> set (take ?i ?bs @ drop (Suc ?i) ?bs)"
    using cnt by (metis count_list_0_iff diff_self_eq_0)
  with eq len sub cnt show ?thesis by simp
qed

text \<open>
  With two equal boxes in the list, deleting the first leaves a box with the same geometry
  and the same attributes.
\<close>

theorem deleteBox_duplicate_counterexample:
  "boundingBoxes example_state ! 0
     \<in> set (boundingBoxes (deleteBox 0 example_state))"
  by (simp add: deleteBox_def filter_index_def example_state_def upt_conv_Cons)

theorem deleteBox_removes_one_occurrence_witness:
  "(0::int) \<le> 1 \<and> 1 < int (length (boundingBoxes example_state))
   \<and> boundingBoxes (deleteBox 1 example_state) = [example_box]
   \<and> subseq (boundingBoxes (deleteBox 1 example_state)) (boundingBoxes example_state)"
  using deleteBox_removes_one_occurrence[of 1 example_state]
  by (simp add: example_state_def)

text \<open>
  Claim C9. In every record that \<open>saveAnnotation\<close> posts, \<open>total_shrimp\<close> is the length of
  \<open>bounding_boxes\<close>, which is the current box list.
\<close>

theorem saveAnnotation_total_shrimp:
  "saveAnnotation st = Some a \<Longrightarrow>
     total_shrimp a = length (bounding_boxes a) \<and> bounding_boxes a = boundingBoxes st"
  by (auto simp: saveAnnotation_def Let_def split: if_splits)

theorem saveAnnotation_total_shrimp_witness:
  "saveAnnotation example_state \<noteq> None
   \<and> total_shrimp (the (saveAnnotation example_state)) = 2"
  using saveAnnotation_total_shrimp[of example_state "the (saveAnnotation example_state)"]
  by (simp add: saveAnnotation_def example_state_def Let_def)

text \<open>
  Claim C10. With the current index inside a (therefore non-empty) image list, \<open>nextImage\<close>
  and \<open>prevImage\<close> keep it inside; \<open>nextImage\<close> on the last image and \<open>prevImage\<close> on the
  first leave the state unchanged, and elsewhere they move the index by one.
\<close>

theorem navigation_keeps_index_in_range:
  assumes "0 \<le> currentImageIndex st" and "currentImageIndex st < int (length (images st))"
  shows "(0 \<le> currentImageIndex (nextImage st)
          \<and> currentImageIndex (nextImage st) < int (length (images (nextImage st))))
       \<and> (0 \<le> currentImageIndex (prevImage st)
          \<and> currentImageIndex (prevImage st) < int (length (images (prevImage st))))
       \<and> (currentImageIndex st = int (length (images st)) - 1 \<longrightarrow> nextImage st = st)
       \<and> (currentImageIndex st = 0 \<longrightarrow> prevImage st = st)
       \<and> (currentImageIndex st < int (length (images st)) - 1
            \<longrightarrow> currentImageIndex (nextImage st) = currentImageIndex st + 1)
       \<and> (0 < currentImageIndex st
            \<longrightarrow> currentImageIndex (prevImage st) = currentImageIndex st - 1)"
  using assms by (auto simp: nextImage_def prevImage_def)

theorem navigation_keeps_index_in_range_witness:
  "0 \<le> currentImageIndex example_state
   \<and> currentImageIndex example_state < int (length (images example_state))
   \<and> nextImage example_state = example_state
   \<and> currentImageIndex (prevImage example_state) = 0
   \<and> prevImage (prevImage example_state) = prevImage example_state"
  using navigation_keeps_index_in_range[of example_state]
        navigation_keeps_index_in_range[of "prevImage example_state"]
  by (simp add: example_state_def nextImage_def prevImage_def)

section \<open>Properties of the renderer\<close>

lemma drawCanvas_Some:
  "drawCanvas d st = Some ds \<Longrightarrow>
     \<exists>c. canvasRef d = Some c \<and>
       ds = map (\<lambda>(box, index). drawBox c (availableClasses st) box index)
              (zip (allBoxes st) [0..<length (allBoxes st)])"
  by (auto simp: drawCanvas_def split: option.splits if_splits)

lemma drawCanvas_basic_Some:
  "drawCanvas_basic d st = Some ds \<Longrightarrow>
     \<exists>c. canvasRef d = Some c \<and>
       ds = map (\<lambda>(box, index). drawBox_basic c box index)
              (zip (allBoxes st) [0..<length (allBoxes st)])"
  by (auto simp: drawCanvas_basic_def split: option.splits if_splits)

text \<open>
  Claim C2, as amended. The label of each box drawn is its display name followed by its
  1-based position in the list of boxes drawn, a counter that runs over all boxes whatever
  their type. (The earlier version of the page numbers the boxes the same way, after the
  \<open>label\<close> field.)
\<close>

theorem drawCanvas_labels_by_position:
  "(drawCanvas d st = Some ds \<longrightarrow>
      length ds = length (allBoxes st) \<and>
      (\<forall>i < length ds. labelText (ds ! i)
          = displayName (availableClasses st) (allBoxes st ! i) @ '' '' @ show_nat (i + 1)))
   \<and> (drawCanvas_basic d st = Some ds \<longrightarrow>
      length ds = length (allBoxes st) \<and>
      (\<forall>i < length ds. labelText (ds ! i) = label (allBoxes st ! i) @ '' '' @ show_nat (i + 1)))"
proof (intro conjI impI)
  assume "drawCanvas d st = Some ds"
  then obtain c where ds: "ds = map (\<lambda>(box, index). drawBox c (availableClasses st) box index)
              (zip (allBoxes st) [0..<length (allBoxes st)])"
    using drawCanvas_Some by blast
  show "length ds = length (allBoxes st)" by (simp add: ds)
  show "\<forall>i < length ds. labelText (ds ! i)
          = displayName (availableClasses st) (allBoxes st ! i) @ '' '' @ show_nat (i + 1)"
    by (simp add: ds drawBox_def Let_def)
next
  assume "drawCanvas_basic d st = Some ds"
  then obtain c where ds: "ds = map (\<lambda>(box, index). drawBox_basic c box index)
              (zip (allBoxes st) [0..<length (allBoxes st)])"
    using drawCanvas_basic_Some by blast
  show "length ds = length (allBoxes st)" by (simp add: ds)
  show "\<forall>i < length ds. labelText (ds ! i) = label (allBoxes st ! i) @ '' '' @ show_nat (i + 1)"
    by (simp add: ds drawBox_basic_def Let_def)
qed

text \<open>The labels drawn for two boxes of type \<open>shrimp\<close> and one of type \<open>adult\<close>.\<close>

lemma labelled_state_labels:
  "map_option (map labelText) (drawCanvas example_dom labelled_state)
     = Some [''Shrimp 1'', ''Shrimp 2'', ''Adult 3'']"
  by (simp add: drawCanvas_def example_dom_def labelled_state_def empty_state_def allBoxes_def
      drawBox_def displayName_def classInfoOf_def example_classes_def example_box_def Let_def
      upt_conv_Cons show_nat.simps digit_char_def)

theorem drawCanvas_labels_by_position_witness:
  "drawCanvas example_dom labelled_state \<noteq> None
   \<and> length (the (drawCanvas example_dom labelled_state)) = 3
   \<and> labelText (the (drawCanvas example_dom labelled_state) ! 2) = ''Adult 3''"
proof -
  obtain ds where ds: "drawCanvas example_dom labelled_state = Some ds"
    by (simp add: drawCanvas_def example_dom_def)
  have boxes: "allBoxes labelled_state = boundingBoxes labelled_state"
    by (simp add: allBoxes_def labelled_state_def empty_state_def)
  have len: "length (boundingBoxes labelled_state) = 3"
    by (simp add: labelled_state_def)
  have name: "displayName (availableClasses labelled_state) (boundingBoxes labelled_state ! 2)
                = ''Adult''"
    by (simp add: labelled_state_def empty_state_def displayName_def classInfoOf_def
        example_classes_def example_box_def)
  have three: "show_nat (2 + 1) = ''3''"
    by (simp add: show_nat.simps digit_char_def)
  from drawCanvas_labels_by_position[of example_dom labelled_state ds] ds
  have l: "length ds = length (allBoxes labelled_state)"
    and t: "\<forall>i < length ds. labelText (ds ! i)
          = displayName (availableClasses labelled_state) (allBoxes labelled_state ! i)
              @ '' '' @ show_nat (i + 1)"
    by simp_all
  from l boxes len have l3: "length ds = 3" by simp
  then have "2 < length ds" by simp
  with t have "labelText (ds ! 2)
      = displayName (availableClasses labelled_state) (allBoxes labelled_state ! 2)
          @ '' '' @ show_nat (2 + 1)"
    by blast
  with boxes name three have "labelText (ds ! 2) = ''Adult 3''" by simp
  with ds l3 show ?thesis by simp
qed

text \<open>
  Two boxes of type \<open>shrimp\<close> then one of type \<open>adult\<close>: the third label is not
  \<open>Adult 1\<close>.
\<close>

theorem drawCanvas_global_counter_counterexample:
  "map_option (map labelText) (drawCanvas example_dom labelled_state)
     \<noteq> Some [''Shrimp 1'', ''Shrimp 2'', ''Adult 1'']"
  by (simp add: drawCanvas_def example_dom_def labelled_state_def empty_state_def allBoxes_def
      drawBox_def displayName_def classInfoOf_def example_classes_def example_box_def Let_def
      upt_conv_Cons show_nat.simps digit_char_def)

section \<open>Properties of the pointer handlers\<close>

lemma js_gt_Num: "js_gt (Num a) (Num b) = (b < a)"
  by (simp add: js_gt_def)

lemma js_gt_NaN: "js_gt NaN b = False"
  by (cases b) (simp_all add: js_gt_def)

lemma js_sub_NaN_right: "js_sub a NaN = NaN"
  by (cases a) simp_all

lemma js_mul_NaN_right: "js_mul a NaN = NaN"
  by (cases a) simp_all

lemma newBox_geometry:
  "box_x (newBox st cb) = box_x cb \<and> box_y (newBox st cb) = box_y cb
   \<and> box_width (newBox st cb) = box_width cb \<and> box_height (newBox st cb) = box_height cb"
  by (simp add: newBox_def)

text \<open>
  Claim C6. On pointer-up while a candidate is being drawn, the candidate (with the selected
  class, colour and attributes attached, its geometry untouched) is appended to the box list
  when both its width and its height exceed 0.01; otherwise the box list is left as it is.
  In both cases the page is no longer drawing and holds no candidate, and nothing else of
  the state changes. The earlier version of the page appends the candidate itself.
\<close>

theorem handleMouseUp_commits_iff_min_size:
  assumes "isDrawing st" and "currentBox st = Some cb"
  shows "(js_gt (box_width cb) (Num (1 / 100)) \<and> js_gt (box_height cb) (Num (1 / 100))
            \<longrightarrow> boundingBoxes (handleMouseUp st) = boundingBoxes st @ [newBox st cb]
              \<and> boundingBoxes (handleMouseUp_basic st) = boundingBoxes st @ [cb])
       \<and> (\<not> (js_gt (box_width cb) (Num (1 / 100)) \<and> js_gt (box_height cb) (Num (1 / 100)))
            \<longrightarrow> boundingBoxes (handleMouseUp st) = boundingBoxes st
              \<and> boundingBoxes (handleMouseUp_basic st) = boundingBoxes st)
       \<and> \<not> isDrawing (handleMouseUp st) \<and> currentBox (handleMouseUp st) = None
       \<and> \<not> isDrawing (handleMouseUp_basic st) \<and> currentBox (handleMouseUp_basic st) = None
       \<and> box_x (newBox st cb) = box_x cb \<and> box_y (newBox st cb) = box_y cb
       \<and> box_width (newBox st cb) = box_width cb \<and> box_height (newBox st cb) = box_height cb
       \<and> handleMouseUp st = st\<lparr>boundingBoxes := boundingBoxes (handleMouseUp st),
                                 isDrawing := False, currentBox := None\<rparr>"
  using assms by (simp add: handleMouseUp_def handleMouseUp_basic_def newBox_geometry)

theorem handleMouseUp_commits_iff_min_size_witness:
  "isDrawing (drawing_state (1 / 4) (1 / 4))
   \<and> length (boundingBoxes (handleMouseUp (drawing_state (1 / 4) (1 / 4)))) = 1
   \<and> isDrawing (drawing_state (1 / 4) (1 / 200))
   \<and> boundingBoxes (handleMouseUp (drawing_state (1 / 4) (1 / 200))) = []
   \<and> \<not> isDrawing (handleMouseUp (drawing_state (1 / 4) (1 / 200)))"
  using handleMouseUp_commits_iff_min_size[of "drawing_state (1 / 4) (1 / 4)"
          "the (currentBox (drawing_state (1 / 4) (1 / 4)))"]
        handleMouseUp_commits_iff_min_size[of "drawing_state (1 / 4) (1 / 200)"
          "the (currentBox (drawing_state (1 / 4) (1 / 200)))"]
  by (simp add: drawing_state_def empty_state_def js_gt_Num)

lemma allBoxes_after_down:
  "canvasRef d = Some c \<Longrightarrow> imageRef d \<Longrightarrow>
     allBoxes (handleMouseDown d e st) = boundingBoxes st @ [the (currentBox (handleMouseDown d e st))]
     \<and> box_x (the (currentBox (handleMouseDown d e st))) = normalizedX c e
     \<and> box_y (the (currentBox (handleMouseDown d e st))) = normalizedY c e"
  by (simp add: handleMouseDown_def allBoxes_def)

text \<open>
  Claim C8. With a canvas of positive width and height, normalising a pointer position
  (\<open>px\<close>, \<open>py\<close>) in canvas pixels and multiplying by the same canvas size gives
  (\<open>px\<close>, \<open>py\<close>) back, over exact arithmetic; the renderer does so for the candidate that
  \<open>handleMouseDown\<close> anchors there, which it draws last.
\<close>

theorem normalize_then_render_roundtrip:
  assumes "canvasRef d = Some c" and "imageRef d" and "context2d d"
      and "canvas_width c = Num cw" and "0 < cw" and "canvas_height c = Num ch" and "0 < ch"
      and "canvasX c e = Num px" and "canvasY c e = Num py"
  shows "js_mul (normalizedX c e) (canvas_width c) = Num px
       \<and> js_mul (normalizedY c e) (canvas_height c) = Num py
       \<and> map_option (\<lambda>ds. (rect_px_x (last ds), rect_px_y (last ds)))
            (drawCanvas d (handleMouseDown d e st)) = Some (Num px, Num py)"
proof -
  have x: "js_mul (normalizedX c e) (canvas_width c) = Num px"
    using assms by (simp add: normalizedX_def)
  have y: "js_mul (normalizedY c e) (canvas_height c) = Num py"
    using assms by (simp add: normalizedY_def)
  let ?st = "handleMouseDown d e st"
  let ?cb = "the (currentBox ?st)"
  from allBoxes_after_down[OF assms(1,2), of e st]
  have ab: "allBoxes ?st = boundingBoxes st @ [?cb]"
    and bx: "box_x ?cb = normalizedX c e" and by': "box_y ?cb = normalizedY c e"
    by simp_all
  have "drawCanvas d ?st = Some (map (\<lambda>(box, index). drawBox c (availableClasses ?st) box index)
                       (zip (allBoxes ?st) [0..<length (allBoxes ?st)]))"
    using assms(1-3) by (simp add: drawCanvas_def)
  moreover have "last (map (\<lambda>(box, index). drawBox c (availableClasses ?st) box index)
                       (zip (allBoxes ?st) [0..<length (allBoxes ?st)]))
                 = drawBox c (availableClasses ?st) ?cb (length (boundingBoxes st))"
    unfolding ab by simp
  moreover have "rect_px_x (drawBox c (availableClasses ?st) ?cb (length (boundingBoxes st))) = Num px"
    using x bx by (simp add: drawBox_def Let_def)
  moreover have "rect_px_y (drawBox c (availableClasses ?st) ?cb (length (boundingBoxes st))) = Num py"
    using y by' by (simp add: drawBox_def Let_def)
  ultimately show ?thesis using x y by simp
qed

lemma example_canvasXY:
  "canvasX example_canvas (pointer_at 100 50) = Num 100
   \<and> canvasY example_canvas (pointer_at 100 50) = Num 50"
  by (simp add: canvasX_def canvasY_def example_canvas_def pointer_at_def)

theorem normalize_then_render_roundtrip_witness:
  "canvasX example_canvas (pointer_at 100 50) = Num 100
   \<and> canvasY example_canvas (pointer_at 100 50) = Num 50
   \<and> normalizedX example_canvas (pointer_at 100 50) = Num (1 / 2)
   \<and> js_mul (normalizedX example_canvas (pointer_at 100 50)) (canvas_width example_canvas) = Num 100
   \<and> map_option (\<lambda>ds. (rect_px_x (last ds), rect_px_y (last ds)))
        (drawCanvas example_dom (handleMouseDown example_dom (pointer_at 100 50) empty_state))
       = Some (Num 100, Num 50)"
proof -
  have n: "normalizedX example_canvas (pointer_at 100 50) = Num (1 / 2)"
    by (simp add: normalizedX_def canvasX_def example_canvas_def pointer_at_def)
  have "canvasRef example_dom = Some example_canvas" "imageRef example_dom" "context2d example_dom"
    "canvas_width example_canvas = Num 200" "canvas_height example_canvas = Num 200"
    by (simp_all add: example_dom_def example_canvas_def)
  from normalize_then_render_roundtrip[OF this(1-4) _ this(5) _ conjunct1[OF example_canvasXY]
       conjunct2[OF example_canvasXY], of empty_state]
  show ?thesis using n example_canvasXY by simp
qed

text \<open>
  Claim C1 at a concrete gesture on a 200 by 200 canvas. Dragging from pixel (100, 100)
  through (75, 75) to (50, 50) stores a box of width and height 1/8 at (1/4, 1/4), whereas
  dragging from (50, 50) to (100, 100) stores the box of width and height 1/4 at (1/4, 1/4):
  \<open>handleMouseMove\<close> measures the width from the candidate's current corner, which an
  earlier move up or left has already replaced by the pointer position.
\<close>

theorem up_left_drag_loses_anchor:
  "boundingBoxes (gesture (at_example 100 100) [at_example 75 75, at_example 50 50] empty_state)
     = [example_box\<lparr>box_width := Num (1 / 8), box_height := Num (1 / 8)\<rparr>]
   \<and> boundingBoxes (gesture (at_example 50 50) [at_example 100 100] empty_state)
     = [example_box]"
  by (simp add: gesture_def at_example_def example_dom_def example_canvas_def pointer_at_def
      empty_state_def handleMouseDown_def handleMouseMove_def handleMouseUp_def newBox_def
      normalizedX_def normalizedY_def canvasX_def canvasY_def js_gt_def example_box_def Let_def
      example_classes_def)

lemma div_zero_left: "js_div (Num 0) r = Num 0 \<or> js_div (Num 0) r = NaN"
  by (cases r) (simp_all add: inf_of_sign_def)

lemma mul_zero_right: "js_mul t (Num 0) = Num 0 \<or> js_mul t (Num 0) = NaN"
  by (cases t) (simp_all add: inf_of_sign_def)

lemma normalized_zero_dim:
  "js_div (js_mul t (js_div (Num 0) r)) (Num 0) = NaN"
  using div_zero_left[of r] mul_zero_right[of t]
  by (auto simp: js_mul_NaN_right inf_of_sign_def)

lemma normalizedX_zero_width: "canvas_width c = Num 0 \<Longrightarrow> normalizedX c e = NaN"
  by (simp add: normalizedX_def canvasX_def normalized_zero_dim)

lemma normalizedY_zero_height: "canvas_height c = Num 0 \<Longrightarrow> normalizedY c e = NaN"
  by (simp add: normalizedY_def canvasY_def normalized_zero_dim)

lemma nan_anchored_move:
  assumes "nan_anchored s"
  shows "nan_anchored (handleMouseMove d e s)
       \<and> boundingBoxes (handleMouseMove d e s) = boundingBoxes s"
proof -
  from assms obtain cb where cb: "isDrawing s" "currentBox s = Some cb"
    and a: "(box_x cb = NaN \<and> (box_width cb = Num 0 \<or> box_width cb = NaN)) \<or>
            (box_y cb = NaN \<and> (box_height cb = Num 0 \<or> box_height cb = NaN))"
    by (auto simp: nan_anchored_def split: option.splits)
  show ?thesis
  proof (cases "canvasRef d")
    case None
    with cb assms show ?thesis by (simp add: handleMouseMove_def)
  next
    case (Some c)
    from a show ?thesis
    proof
      assume "box_x cb = NaN \<and> (box_width cb = Num 0 \<or> box_width cb = NaN)"
      then show ?thesis using cb Some
        by (simp add: handleMouseMove_def nan_anchored_def Let_def js_sub_NaN_right)
    next
      assume "box_y cb = NaN \<and> (box_height cb = Num 0 \<or> box_height cb = NaN)"
      then show ?thesis using cb Some
        by (simp add: handleMouseMove_def nan_anchored_def Let_def js_sub_NaN_right)
    qed
  qed
qed

lemma nan_anchored_moves:
  "nan_anchored s \<Longrightarrow>
     nan_anchored (foldl (\<lambda>s (d, e). handleMouseMove d e s) s moves)
     \<and> boundingBoxes (foldl (\<lambda>s (d, e). handleMouseMove d e s) s moves) = boundingBoxes s"
proof (induction moves arbitrary: s)
  case Nil
  then show ?case by simp
next
  case (Cons m moves)
  obtain d e where m: "m = (d, e)" by (cases m)
  from nan_anchored_move[OF Cons.prems, of d e] Cons.IH[of "handleMouseMove d e s"]
  show ?case by (simp add: m)
qed

lemma nan_anchored_up:
  "nan_anchored s \<Longrightarrow>
     boundingBoxes (handleMouseUp s) = boundingBoxes s \<and> \<not> isDrawing (handleMouseUp s)
     \<and> currentBox (handleMouseUp s) = None"
  by (auto simp: nan_anchored_def handleMouseUp_def js_gt_NaN js_gt_def split: option.splits)

lemma nan_checked_move:
  assumes "nan_checked s"
  shows "nan_checked (handleMouseMove d e s)
       \<and> boundingBoxes (handleMouseMove d e s) = boundingBoxes s"
proof -
  from assms obtain cb where cb: "isDrawing s" "currentBox s = Some cb"
    and a: "box_x cb = NaN \<longrightarrow> box_width cb = Num 0 \<or> box_width cb = NaN"
           "box_y cb = NaN \<longrightarrow> box_height cb = Num 0 \<or> box_height cb = NaN"
    by (auto simp: nan_checked_def split: option.splits)
  show ?thesis
  proof (cases "canvasRef d")
    case None
    with cb assms show ?thesis by (simp add: handleMouseMove_def)
  next
    case (Some c)
    have x: "(if js_lt (js_sub (normalizedX c e) (box_x cb)) (Num 0) then normalizedX c e else box_x cb) = NaN
          \<longrightarrow> js_abs (js_sub (normalizedX c e) (box_x cb)) = NaN"
      by (auto simp: js_sub_NaN_right)
    have y: "(if js_lt (js_sub (normalizedY c e) (box_y cb)) (Num 0) then normalizedY c e else box_y cb) = NaN
          \<longrightarrow> js_abs (js_sub (normalizedY c e) (box_y cb)) = NaN"
      by (auto simp: js_sub_NaN_right)
    from cb Some x y show ?thesis
      by (simp add: handleMouseMove_def nan_checked_def Let_def)
  qed
qed

lemma nan_checked_moves:
  "nan_checked s \<Longrightarrow>
     nan_checked (foldl (\<lambda>s (d, e). handleMouseMove d e s) s moves)
     \<and> boundingBoxes (foldl (\<lambda>s (d, e). handleMouseMove d e s) s moves) = boundingBoxes s"
proof (induction moves arbitrary: s)
  case Nil
  then show ?case by simp
next
  case (Cons m moves)
  obtain d e where m: "m = (d, e)" by (cases m)
  from nan_checked_move[OF Cons.prems, of d e] Cons.IH[of "handleMouseMove d e s"]
  show ?case by (simp add: m)
qed

lemma nan_checked_up:
  assumes "nan_checked s"
  shows "boundingBoxes (handleMouseUp s) = boundingBoxes s
       \<or> (\<exists>b. boundingBoxes (handleMouseUp s) = boundingBoxes s @ [b] \<and> \<not> has_nan b)"
proof -
  from assms obtain cb where cb: "isDrawing s" "currentBox s = Some cb"
    and a: "box_x cb = NaN \<longrightarrow> box_width cb = Num 0 \<or> box_width cb = NaN"
           "box_y cb = NaN \<longrightarrow> box_height cb = Num 0 \<or> box_height cb = NaN"
    by (auto simp: nan_checked_def split: option.splits)
  show ?thesis
  proof (cases "js_gt (box_width cb) (Num (1 / 100)) \<and> js_gt (box_height cb) (Num (1 / 100))")
    case False
    with cb have "boundingBoxes (handleMouseUp s) = boundingBoxes s"
      by (auto simp: handleMouseUp_def)
    then show ?thesis by blast
  next
    case True
    then have "box_width cb \<noteq> NaN" "box_height cb \<noteq> NaN" "box_width cb \<noteq> Num 0" "box_height cb \<noteq> Num 0"
      by (auto simp: js_gt_NaN js_gt_Num)
    with a have "\<not> has_nan (newBox s cb)"
      by (auto simp: has_nan_def newBox_def)
    moreover from cb True have "boundingBoxes (handleMouseUp s) = boundingBoxes s @ [newBox s cb]"
      by (simp add: handleMouseUp_def)
    ultimately show ?thesis by blast
  qed
qed

lemma gesture_stores_no_nan:
  assumes "canvasRef d = Some c" and "imageRef d"
  shows "boundingBoxes (gesture (d, e) moves st) = boundingBoxes st
       \<or> (\<exists>b. boundingBoxes (gesture (d, e) moves st) = boundingBoxes st @ [b] \<and> \<not> has_nan b)"
proof -
  have "nan_checked (handleMouseDown d e st)"
    using assms by (simp add: handleMouseDown_def nan_checked_def)
  moreover have "boundingBoxes (handleMouseDown d e st) = boundingBoxes st"
    using assms by (simp add: handleMouseDown_def)
  ultimately show ?thesis
    using nan_checked_moves[of "handleMouseDown d e st" moves]
      nan_checked_up[of "foldl (\<lambda>s (d, e). handleMouseMove d e s) (handleMouseDown d e st) moves"]
    by (simp add: gesture_def)
qed

text \<open>
  Claim C4, as amended. With a canvas of width (height) zero the conversion raises nothing
  and gives \<open>NaN\<close> for the horizontal (vertical) coordinate. A gesture whose pointer-down
  was converted on such a canvas stores no box, whatever moves follow: the box list is
  unchanged and the page is back to not drawing. And whatever the canvas is at each event,
  a gesture stores nothing or one box none of whose coordinates and sides is \<open>NaN\<close>.
\<close>

theorem zero_canvas_yields_NaN_and_no_box:
  assumes "canvasRef d = Some c" and "imageRef d"
  shows "(canvas_width c = Num 0 \<longrightarrow> normalizedX c e = NaN)
       \<and> (canvas_height c = Num 0 \<longrightarrow> normalizedY c e = NaN)
       \<and> (canvas_width c = Num 0 \<or> canvas_height c = Num 0 \<longrightarrow>
            boundingBoxes (gesture (d, e) moves st) = boundingBoxes st
            \<and> \<not> isDrawing (gesture (d, e) moves st)
            \<and> currentBox (gesture (d, e) moves st) = None)
       \<and> (boundingBoxes (gesture (d, e) moves st) = boundingBoxes st
            \<or> (\<exists>b. boundingBoxes (gesture (d, e) moves st) = boundingBoxes st @ [b]
                   \<and> \<not> has_nan b))"
proof -
  let ?down = "handleMouseDown d e st"
  let ?moved = "foldl (\<lambda>s (d, e). handleMouseMove d e s) ?down moves"
  have bs: "boundingBoxes ?down = boundingBoxes st"
    using assms by (simp add: handleMouseDown_def)
  have "boundingBoxes (gesture (d, e) moves st) = boundingBoxes st
            \<and> \<not> isDrawing (gesture (d, e) moves st)
            \<and> currentBox (gesture (d, e) moves st) = None"
    if z: "canvas_width c = Num 0 \<or> canvas_height c = Num 0"
  proof -
    have "nan_anchored ?down"
      using assms z normalizedX_zero_width[of c e] normalizedY_zero_height[of c e]
      by (auto simp: handleMouseDown_def nan_anchored_def)
    with bs show ?thesis
      using nan_anchored_moves[of ?down moves] nan_anchored_up[of ?moved]
      by (simp add: gesture_def)
  qed
  with normalizedX_zero_width[of c e] normalizedY_zero_height[of c e]
    gesture_stores_no_nan[OF assms, of e moves st]
  show ?thesis by blast
qed

text \<open>On a canvas of width zero the pointer is not converted to the origin.\<close>

theorem zero_canvas_not_origin_counterexample:
  "(normalizedX zero_width_canvas (pointer_at 100 100),
    normalizedY zero_width_canvas (pointer_at 100 100)) \<noteq> (Num 0, Num 0)"
  by (simp add: normalizedX_def canvasX_def zero_width_canvas_def example_canvas_def
      pointer_at_def inf_of_sign_def)

theorem zero_canvas_yields_NaN_and_no_box_witness:
  "canvasRef zero_width_dom = Some zero_width_canvas \<and> imageRef zero_width_dom
   \<and> canvas_width zero_width_canvas = Num 0
   \<and> normalizedX zero_width_canvas (pointer_at 100 100) = NaN
   \<and> boundingBoxes (gesture (zero_width_dom, pointer_at 100 100) [at_example 50 50] empty_state) = []
   \<and> \<not> has_nan example_box"
  using zero_canvas_yields_NaN_and_no_box[of zero_width_dom zero_width_canvas "pointer_at 100 100"
          "[at_example 50 50]" empty_state]
  by (simp add: zero_width_dom_def zero_width_canvas_def empty_state_def has_nan_def
      example_box_def)

lemma unit_fraction:
  fixes cw rw l cx :: real
  assumes "0 < cw" "0 < rw" "l \<le> cx" "cx \<le> l + rw"
  shows "0 \<le> (cx - l) * (cw / rw) / cw \<and> (cx - l) * (cw / rw) / cw \<le> 1"
proof -
  have "(cx - l) * (cw / rw) / cw = (cx - l) / rw"
    using assms by (simp add: field_simps)
  moreover have "0 \<le> (cx - l) / rw" using assms by simp
  moreover have "(cx - l) / rw \<le> 1" using assms by (simp add: field_simps)
  ultimately show ?thesis by simp
qed

lemma pointer_inside_normalized:
  assumes "pointer_inside (d, e)"
  shows "\<exists>c nx ny. canvasRef d = Some c \<and> imageRef d
           \<and> normalizedX c e = Num nx \<and> normalizedY c e = Num ny
           \<and> 0 \<le> nx \<and> nx \<le> 1 \<and> 0 \<le> ny \<and> ny \<le> 1"
proof -
  from assms obtain c cw ch rw rh l t cx cy where
    c: "canvasRef d = Some c" "imageRef d"
    and dims: "canvas_width c = Num cw" "canvas_height c = Num ch"
      "rect_width c = Num rw" "rect_height c = Num rh"
    and pos: "rect_left c = Num l" "rect_top c = Num t" "clientX e = Num cx" "clientY e = Num cy"
    and ineq: "0 < cw" "0 < ch" "0 < rw" "0 < rh" "l \<le> cx" "cx \<le> l + rw" "t \<le> cy" "cy \<le> t + rh"
    by (auto simp: pointer_inside_def split: option.splits jsnum.splits)
  have x: "normalizedX c e = Num ((cx - l) * (cw / rw) / cw)"
    using dims pos ineq by (simp add: normalizedX_def canvasX_def)
  have y: "normalizedY c e = Num ((cy - t) * (ch / rh) / ch)"
    using dims pos ineq by (simp add: normalizedY_def canvasY_def)
  from unit_fraction[OF ineq(1,3,5,6)] unit_fraction[OF ineq(2,4,7,8)] c x y
  show ?thesis by blast
qed

lemma in_unit_squareE:
  assumes "in_unit_square b"
  shows "\<exists>x y w h. box_x b = Num x \<and> box_y b = Num y \<and> box_width b = Num w \<and> box_height b = Num h
           \<and> 0 \<le> x \<and> 0 \<le> y \<and> 0 \<le> w \<and> 0 \<le> h \<and> x + w \<le> 1 \<and> y + h \<le> 1"
  using assms by (auto simp: in_unit_square_def split: jsnum.splits)

lemma in_unit_square_move:
  assumes "isDrawing s" and "currentBox s = Some cb" and "in_unit_square cb"
      and "pointer_inside (d, e)"
  shows "\<exists>cb'. currentBox (handleMouseMove d e s) = Some cb' \<and> in_unit_square cb'
           \<and> isDrawing (handleMouseMove d e s)
           \<and> boundingBoxes (handleMouseMove d e s) = boundingBoxes s"
proof -
  from pointer_inside_normalized[OF assms(4)] obtain c nx ny where
    c: "canvasRef d = Some c" and n: "normalizedX c e = Num nx" "normalizedY c e = Num ny"
    and r: "0 \<le> nx" "nx \<le> 1" "0 \<le> ny" "ny \<le> 1"
    by blast
  from in_unit_squareE[OF assms(3)] obtain x y w h where
    b: "box_x cb = Num x" "box_y cb = Num y" "box_width cb = Num w" "box_height cb = Num h"
    and i: "0 \<le> x" "0 \<le> y" "x + w \<le> 1" "y + h \<le> 1" "0 \<le> w" "0 \<le> h"
    by blast
  from i have "x \<le> 1" "y \<le> 1" by linarith+
  with assms(1,2) c n r b i show ?thesis
    by (simp add: handleMouseMove_def Let_def in_unit_square_def)
qed

lemma in_unit_square_moves:
  assumes "isDrawing s" and "currentBox s = Some cb" and "in_unit_square cb"
      and "\<forall>m \<in> set moves. pointer_inside m"
  shows "\<exists>cb'. currentBox (foldl (\<lambda>s (d, e). handleMouseMove d e s) s moves) = Some cb'
           \<and> in_unit_square cb'
           \<and> isDrawing (foldl (\<lambda>s (d, e). handleMouseMove d e s) s moves)
           \<and> boundingBoxes (foldl (\<lambda>s (d, e). handleMouseMove d e s) s moves) = boundingBoxes s"
  using assms
proof (induction moves arbitrary: s cb)
  case Nil
  then show ?case by simp
next
  case (Cons m moves)
  obtain d e where m: "m = (d, e)" by (cases m)
  from Cons.prems(4) m have "pointer_inside (d, e)" by simp
  from in_unit_square_move[OF Cons.prems(1-3) this] obtain cb' where
    s': "currentBox (handleMouseMove d e s) = Some cb'" "in_unit_square cb'"
      "isDrawing (handleMouseMove d e s)"
      "boundingBoxes (handleMouseMove d e s) = boundingBoxes s"
    by blast
  from Cons.prems(4) have "\<forall>m \<in> set moves. pointer_inside m" by simp
  from Cons.IH[OF s'(3) s'(1) s'(2) this] s'(4) show ?case by (simp add: m)
qed

text \<open>
  What holds of every gesture whose pointer stays inside the canvas: it stores nothing, or
  one box with non-negative sides inside the unit square.
\<close>

lemma gesture_commits_box_in_unit_square:
  assumes "pointer_inside down" and "\<forall>m \<in> set moves. pointer_inside m"
  shows "boundingBoxes (gesture down moves st) = boundingBoxes st
       \<or> (\<exists>b. boundingBoxes (gesture down moves st) = boundingBoxes st @ [b]
              \<and> in_unit_square b)"
proof -
  obtain d e where down: "down = (d, e)" by (cases down)
  from pointer_inside_normalized[OF assms(1)[unfolded down]] obtain c nx ny where
    c: "canvasRef d = Some c" "imageRef d" and n: "normalizedX c e = Num nx" "normalizedY c e = Num ny"
    and r: "0 \<le> nx" "nx \<le> 1" "0 \<le> ny" "ny \<le> 1"
    by blast
  let ?s0 = "handleMouseDown d e st"
  from c n r obtain cb0 where s0: "isDrawing ?s0" "currentBox ?s0 = Some cb0" "in_unit_square cb0"
    "boundingBoxes ?s0 = boundingBoxes st"
    by (simp add: handleMouseDown_def in_unit_square_def)
  let ?s1 = "foldl (\<lambda>s (d, e). handleMouseMove d e s) ?s0 moves"
  from in_unit_square_moves[OF s0(1-3) assms(2)] s0(4) obtain cb1 where
    s1: "currentBox ?s1 = Some cb1" "in_unit_square cb1" "isDrawing ?s1"
      "boundingBoxes ?s1 = boundingBoxes st"
    by auto
  have g: "gesture down moves st = handleMouseUp ?s1" by (simp add: gesture_def down)
  have "in_unit_square (newBox ?s1 cb1)"
    using s1(2) by (simp add: in_unit_square_def newBox_def)
  with s1 show ?thesis unfolding g by (simp add: handleMouseUp_def)
qed

text \<open>
  A gesture with a single move gives the same state in both directions between two points.
\<close>

lemma single_move_drag_is_symmetric:
  assumes "pointer_inside (d, a)" and "pointer_inside (d, b)"
  shows "gesture (d, a) [(d, b)] st = gesture (d, b) [(d, a)] st"
proof -
  from pointer_inside_normalized[OF assms(1)] obtain c ax ay where
    c: "canvasRef d = Some c" "imageRef d" and a: "normalizedX c a = Num ax" "normalizedY c a = Num ay"
    by blast
  from pointer_inside_normalized[OF assms(2)] c obtain bx by' where
    b: "normalizedX c b = Num bx" "normalizedY c b = Num by'"
    by auto
  consider "ax < bx" | "ax = bx" | "bx < ax" by linarith
  then show ?thesis
  proof cases
    case 1
    consider "ay < by'" | "ay = by'" | "by' < ay" by linarith
    then show ?thesis
      using 1 c a b
      by cases (simp_all add: gesture_def handleMouseDown_def handleMouseMove_def handleMouseUp_def
          Let_def js_gt_Num newBox_def)
  next
    case 2
    consider "ay < by'" | "ay = by'" | "by' < ay" by linarith
    then show ?thesis
      using 2 c a b
      by cases (simp_all add: gesture_def handleMouseDown_def handleMouseMove_def handleMouseUp_def
          Let_def js_gt_Num newBox_def)
  next
    case 3
    consider "ay < by'" | "ay = by'" | "by' < ay" by linarith
    then show ?thesis
      using 3 c a b
      by cases (simp_all add: gesture_def handleMouseDown_def handleMouseMove_def handleMouseUp_def
          Let_def js_gt_Num newBox_def)
  qed
qed

section \<open>Properties of the log history\<close>

lemma run_polls_snoc:
  "run_polls tf (polls @ [(now, result)]) st = pollTrainingStatus tf now result (run_polls tf polls st)"
  by (simp add: run_polls_def)

lemma observed_snoc:
  "observed (polls @ [(now, result)])
     = observed polls @ (case observation result of None \<Rightarrow> [] | Some s \<Rightarrow> [s])"
  by (simp add: observed_def List.map_filter_def split: option.splits)

lemma poll_unobserved:
  "observation result = None \<Longrightarrow> pollTrainingStatus tf now result st = st"
  by (cases result) (auto simp: pollTrainingStatus_def split: option.splits bool.splits if_splits)

lemma poll_observed:
  "observation result = Some s \<Longrightarrow>
     pollTrainingStatus tf now result st =
       (if shouldLog st s
        then st\<lparr>trainingData := Some s,
                logs := appendLog (logMessage tf now s) (logs st),
                prevStatusRef := Some (status s),
                prevEpochRef := Some (current_epoch s)\<rparr>
        else st\<lparr>trainingData := Some s\<rparr>)"
  by (cases result) (auto simp: pollTrainingStatus_def Let_def split: option.splits bool.splits if_splits)

lemma shouldLog_iff:
  "shouldLog st s \<longleftrightarrow>
     prevStatusRef st \<noteq> Some (status s) \<or> prevEpochRef st \<noteq> Some (current_epoch s)"
  by (auto simp: shouldLog_def)

lemma refs_are_last_observed:
  assumes "prevStatusRef st0 = None" and "prevEpochRef st0 = None"
  shows "prevStatusRef (run_polls tf polls st0)
     = (if observed polls = [] then None else Some (status (last (observed polls))))
   \<and> prevEpochRef (run_polls tf polls st0)
     = (if observed polls = [] then None else Some (current_epoch (last (observed polls))))"
proof (induction polls rule: rev_induct)
  case Nil
  then show ?case using assms by (simp add: run_polls_def observed_def List.map_filter_def)
next
  case (snoc p polls)
  obtain now result where p: "p = (now, result)" by (cases p)
  show ?case
  proof (cases "observation result")
    case None
    with snoc show ?thesis
      by (simp add: p run_polls_snoc observed_snoc poll_unobserved)
  next
    case (Some s)
    with snoc show ?thesis
      by (simp add: p run_polls_snoc observed_snoc poll_observed shouldLog_iff)
  qed
qed

lemma appendLog_changes:
  "appendLog line prev \<noteq> prev \<Longrightarrow>
     (prev = [] \<or> last prev \<noteq> line)
     \<and> appendLog line prev = drop (length prev + 1 - 50) (prev @ [line])
     \<and> last (appendLog line prev) = line"
  by (auto simp: appendLog_def Let_def split: if_splits)

lemma log_change_needs_status_change:
  assumes "prevStatusRef st0 = None" and "prevEpochRef st0 = None"
      and "logs (pollTrainingStatus tf now result (run_polls tf polls st0))
             \<noteq> logs (run_polls tf polls st0)"
  shows "\<exists>s. observation result = Some s
           \<and> (observed polls = [] \<or> status (last (observed polls)) \<noteq> status s
                \<or> current_epoch (last (observed polls)) \<noteq> current_epoch s)
           \<and> (logs (run_polls tf polls st0) = []
                \<or> last (logs (run_polls tf polls st0)) \<noteq> logMessage tf now s)
           \<and> logs (pollTrainingStatus tf now result (run_polls tf polls st0))
               = drop (length (logs (run_polls tf polls st0)) + 1 - 50)
                   (logs (run_polls tf polls st0) @ [logMessage tf now s])"
proof -
  let ?st = "run_polls tf polls st0"
  from assms(3) obtain s where s: "observation result = Some s"
    by (cases "observation result") (auto simp: poll_unobserved)
  from assms(3) s have sl: "shouldLog ?st s" and
    ch: "appendLog (logMessage tf now s) (logs ?st) \<noteq> logs ?st"
    by (auto simp: poll_observed split: if_splits)
  from sl refs_are_last_observed[OF assms(1,2), of tf polls]
  have "observed polls = [] \<or> status (last (observed polls)) \<noteq> status s
          \<or> current_epoch (last (observed polls)) \<noteq> current_epoch s"
    by (auto simp: shouldLog_iff split: if_splits)
  moreover from s sl have "logs (pollTrainingStatus tf now result ?st)
      = appendLog (logMessage tf now s) (logs ?st)"
    by (simp add: poll_observed)
  ultimately show ?thesis using s appendLog_changes[OF ch] by auto
qed

lemma example_sequence_logs:
  assumes "status s1 = ''preparing''" and "status s2 = ''preparing''"
      and "current_epoch s2 = current_epoch s1"
      and "status s3 = ''training''" and "current_epoch s3 = 1"
      and "status s4 = ''training''" and "current_epoch s4 = 1"
      and "status s5 = ''training''" and "current_epoch s5 = 2"
      and "status s6 = ''completed''"
      and "logMessage tf t1 s1 \<noteq> logMessage tf t3 s3"
      and "logMessage tf t3 s3 \<noteq> logMessage tf t5 s5"
      and "logMessage tf t5 s5 \<noteq> logMessage tf t6 s6"
  shows "logs (run_polls tf [(t1, answer s1), (t2, answer s2), (t3, answer s3), (t4, answer s4),
                             (t5, answer s5), (t6, answer s6)] initial_progress)
           = [logMessage tf t1 s1, logMessage tf t3 s3, logMessage tf t5 s5, logMessage tf t6 s6]"
proof -
  have obs: "observation (answer s) = Some s" for s by (simp add: answer_def)
  let ?p1 = "pollTrainingStatus tf t1 (answer s1) initial_progress"
  have p1: "logs ?p1 = [logMessage tf t1 s1] \<and> prevStatusRef ?p1 = Some ''preparing''
      \<and> prevEpochRef ?p1 = Some (current_epoch s1)"
    using assms(1) by (simp add: poll_observed[OF obs] shouldLog_iff initial_progress_def appendLog_def)
  let ?p2 = "pollTrainingStatus tf t2 (answer s2) ?p1"
  have p2: "logs ?p2 = [logMessage tf t1 s1] \<and> prevStatusRef ?p2 = Some ''preparing''
      \<and> prevEpochRef ?p2 = Some (current_epoch s1)"
    using assms(2,3) p1 by (simp add: poll_observed[OF obs] shouldLog_iff)
  let ?p3 = "pollTrainingStatus tf t3 (answer s3) ?p2"
  have p3: "logs ?p3 = [logMessage tf t1 s1, logMessage tf t3 s3] \<and> prevStatusRef ?p3 = Some ''training''
      \<and> prevEpochRef ?p3 = Some 1"
    using assms(4,5,11) p2 by (simp add: poll_observed[OF obs] shouldLog_iff appendLog_def)
  let ?p4 = "pollTrainingStatus tf t4 (answer s4) ?p3"
  have p4: "logs ?p4 = [logMessage tf t1 s1, logMessage tf t3 s3] \<and> prevStatusRef ?p4 = Some ''training''
      \<and> prevEpochRef ?p4 = Some 1"
    using assms(6,7) p3 by (simp add: poll_observed[OF obs] shouldLog_iff)
  let ?p5 = "pollTrainingStatus tf t5 (answer s5) ?p4"
  have p5: "logs ?p5 = [logMessage tf t1 s1, logMessage tf t3 s3, logMessage tf t5 s5]
      \<and> prevStatusRef ?p5 = Some ''training'' \<and> prevEpochRef ?p5 = Some 2"
    using assms(8,9,12) p4 by (simp add: poll_observed[OF obs] shouldLog_iff appendLog_def)
  let ?p6 = "pollTrainingStatus tf t6 (answer s6) ?p5"
  have p6: "logs ?p6 = [logMessage tf t1 s1, logMessage tf t3 s3, logMessage tf t5 s5, logMessage tf t6 s6]"
    using assms(10,13) p5 by (simp add: poll_observed[OF obs] shouldLog_iff appendLog_def)
  then show ?thesis by (simp add: run_polls_def)
qed

lemma progress_run_snoc:
  "progress_run tf c (evs @ [ev]) = fst (progress_step tf (progress_run tf c evs) ev)"
  by (simp add: progress_run_def)

lemma period_start: "run_polls tf [] st = st"
  by (simp add: run_polls_def)

lemma reachable_state_is_period_run:
  "\<exists>st0 polls. prevStatusRef st0 = None \<and> prevEpochRef st0 = None
     \<and> tp_state (progress_run tf (fst (mount tf v now0 r0)) evs) = run_polls tf polls st0"
proof (induction evs rule: rev_induct)
  case Nil
  show ?case
  proof (cases v)
    case True
    have "tp_state (progress_run tf (fst (mount tf v now0 r0)) [])
            = run_polls tf [(now0, r0)] initial_progress"
      using True by (simp add: progress_run_def mount_def runEffect_def run_polls_def)
    moreover have "prevStatusRef initial_progress = None \<and> prevEpochRef initial_progress = None"
      by (simp add: initial_progress_def)
    ultimately show ?thesis by blast
  next
    case False
    let ?st = "initial_progress\<lparr>prevStatusRef := None, prevEpochRef := None\<rparr>"
    have "tp_state (progress_run tf (fst (mount tf v now0 r0)) []) = run_polls tf [] ?st"
      using False by (simp add: progress_run_def mount_def runEffect_def run_polls_def)
    moreover have "prevStatusRef ?st = None \<and> prevEpochRef ?st = None" by simp
    ultimately show ?thesis by blast
  qed
next
  case (snoc ev evs)
  let ?c = "progress_run tf (fst (mount tf v now0 r0)) evs"
  from snoc obtain st0 polls where st0: "prevStatusRef st0 = None" "prevEpochRef st0 = None"
    and c: "tp_state ?c = run_polls tf polls st0"
    by blast
  have polled: "\<exists>st0 polls. prevStatusRef st0 = None \<and> prevEpochRef st0 = None
     \<and> pollTrainingStatus tf now result (tp_state ?c) = run_polls tf polls st0" for now result
    using st0 c run_polls_snoc[of tf polls now result st0] by metis
  have reset: "\<exists>st0 polls. prevStatusRef st0 = None \<and> prevEpochRef st0 = None
     \<and> (tp_state ?c)\<lparr>prevStatusRef := None, prevEpochRef := None\<rparr> = run_polls tf polls st0"
    using period_start[of tf "(tp_state ?c)\<lparr>prevStatusRef := None, prevEpochRef := None\<rparr>"]
    by (metis progress_state.select_convs(3,4) progress_state.surjective progress_state.update_convs(3,4))
  have same: "\<exists>st0 polls. prevStatusRef st0 = None \<and> prevEpochRef st0 = None
     \<and> tp_state ?c = run_polls tf polls st0"
    using st0 c by blast
  show ?case
  proof (cases ev)
    case (Render isVisible now result)
    then show ?thesis using polled[of now result] reset same
      by (auto simp: progress_run_snoc runEffect_def)
  next
    case (Tick now result)
    then show ?thesis using polled[of now result] same
      by (auto simp: progress_run_snoc)
  qed
qed


text \<open>
  Claim C3, as amended. The two refs are reset whenever the dialog is hidden, while the
  log history is kept, so what was observed before counts within one visible period only.
  Take the dialog at the start of a visible period (both refs unset: at mount, or after the
  dialog was hidden) and let it handle any polls. If the next poll changes the log
  history, then it observed a status, and either nothing was observed before in this
  period or the last status observed differs from it in state or in epoch; the line
  appended is not the last line of the history, and the history is the old one with the
  line appended, cut to its last 50 lines. For the sequence preparing, preparing, epoch 1,
  epoch 1, epoch 2, completed, starting from the empty history, the history has exactly
  the four lines of the first, third, fifth and sixth status, provided neighbouring lines
  differ as texts. Every state the dialog reaches from its mount, through renders and
  ticks, is such a run of polls from the start of a visible period.
\<close>

theorem log_appended_only_on_change:
  "(prevStatusRef st0 = None \<and> prevEpochRef st0 = None
      \<and> logs (pollTrainingStatus tf now result (run_polls tf polls st0))
           \<noteq> logs (run_polls tf polls st0)
    \<longrightarrow> (\<exists>s. observation result = Some s
           \<and> (observed polls = [] \<or> status (last (observed polls)) \<noteq> status s
                \<or> current_epoch (last (observed polls)) \<noteq> current_epoch s)
           \<and> (logs (run_polls tf polls st0) = []
                \<or> last (logs (run_polls tf polls st0)) \<noteq> logMessage tf now s)
           \<and> logs (pollTrainingStatus tf now result (run_polls tf polls st0))
               = drop (length (logs (run_polls tf polls st0)) + 1 - 50)
                   (logs (run_polls tf polls st0) @ [logMessage tf now s])))
   \<and> (status s1 = ''preparing'' \<and> status s2 = ''preparing'' \<and> current_epoch s2 = current_epoch s1
      \<and> status s3 = ''training'' \<and> current_epoch s3 = 1
      \<and> status s4 = ''training'' \<and> current_epoch s4 = 1
      \<and> status s5 = ''training'' \<and> current_epoch s5 = 2
      \<and> status s6 = ''completed''
      \<and> logMessage tf t1 s1 \<noteq> logMessage tf t3 s3
      \<and> logMessage tf t3 s3 \<noteq> logMessage tf t5 s5
      \<and> logMessage tf t5 s5 \<noteq> logMessage tf t6 s6
    \<longrightarrow> logs (run_polls tf [(t1, answer s1), (t2, answer s2), (t3, answer s3), (t4, answer s4),
                             (t5, answer s5), (t6, answer s6)] initial_progress)
           = [logMessage tf t1 s1, logMessage tf t3 s3, logMessage tf t5 s5, logMessage tf t6 s6]
        \<and> length (logs (run_polls tf [(t1, answer s1), (t2, answer s2), (t3, answer s3),
                             (t4, answer s4), (t5, answer s5), (t6, answer s6)] initial_progress)) = 4)
   \<and> (\<exists>start period. prevStatusRef start = None \<and> prevEpochRef start = None
         \<and> tp_state (progress_run tf (fst (mount tf v now0 r0)) evs) = run_polls tf period start)"
proof (intro conjI impI)
  assume "prevStatusRef st0 = None \<and> prevEpochRef st0 = None
      \<and> logs (pollTrainingStatus tf now result (run_polls tf polls st0))
           \<noteq> logs (run_polls tf polls st0)"
  then show "\<exists>s. observation result = Some s
           \<and> (observed polls = [] \<or> status (last (observed polls)) \<noteq> status s
                \<or> current_epoch (last (observed polls)) \<noteq> current_epoch s)
           \<and> (logs (run_polls tf polls st0) = []
                \<or> last (logs (run_polls tf polls st0)) \<noteq> logMessage tf now s)
           \<and> logs (pollTrainingStatus tf now result (run_polls tf polls st0))
               = drop (length (logs (run_polls tf polls st0)) + 1 - 50)
                   (logs (run_polls tf polls st0) @ [logMessage tf now s])"
    using log_change_needs_status_change[of st0 tf now result polls] by blast
next
  assume h: "status s1 = ''preparing'' \<and> status s2 = ''preparing'' \<and> current_epoch s2 = current_epoch s1
      \<and> status s3 = ''training'' \<and> current_epoch s3 = 1
      \<and> status s4 = ''training'' \<and> current_epoch s4 = 1
      \<and> status s5 = ''training'' \<and> current_epoch s5 = 2
      \<and> status s6 = ''completed''
      \<and> logMessage tf t1 s1 \<noteq> logMessage tf t3 s3
      \<and> logMessage tf t3 s3 \<noteq> logMessage tf t5 s5
      \<and> logMessage tf t5 s5 \<noteq> logMessage tf t6 s6"
  then show l: "logs (run_polls tf [(t1, answer s1), (t2, answer s2), (t3, answer s3), (t4, answer s4),
                             (t5, answer s5), (t6, answer s6)] initial_progress)
           = [logMessage tf t1 s1, logMessage tf t3 s3, logMessage tf t5 s5, logMessage tf t6 s6]"
    using example_sequence_logs[of s1 s2 s3 s4 s5 s6 tf t1 t3 t5 t6 t2 t4] by blast
  show "length (logs (run_polls tf [(t1, answer s1), (t2, answer s2), (t3, answer s3),
                             (t4, answer s4), (t5, answer s5), (t6, answer s6)] initial_progress)) = 4"
    unfolding l by simp
next
  show "\<exists>start period. prevStatusRef start = None \<and> prevEpochRef start = None
         \<and> tp_state (progress_run tf (fst (mount tf v now0 r0)) evs) = run_polls tf period start"
    by (rule reachable_state_is_period_run)
qed

theorem log_appended_only_on_change_witness:
  "length (logs (run_polls example_toFixed example_polls initial_progress)) = 4
   \<and> logs (run_polls example_toFixed example_polls initial_progress)
       = [''[10:00:00] Preparing dataset'', ''[10:00:02] Training - Epoch 1/100'',
          ''[10:00:04] Training - Epoch 2/100'', ''[10:00:05] Training completed'']
   \<and> logs (pollTrainingStatus example_toFixed ''10:00:06''
              (answer (example_update ''failed'' 2 ''Training failed''))
              (run_polls example_toFixed example_polls initial_progress))
       \<noteq> logs (run_polls example_toFixed example_polls initial_progress)"
proof -
  have m: "logMessage example_toFixed ''10:00:00'' (example_update ''preparing'' 0 ''Preparing dataset'')
             = ''[10:00:00] Preparing dataset''"
    "logMessage example_toFixed ''10:00:02'' (example_update ''training'' 1 ''Training'')
             = ''[10:00:02] Training - Epoch 1/100''"
    "logMessage example_toFixed ''10:00:04'' (example_update ''training'' 2 ''Training'')
             = ''[10:00:04] Training - Epoch 2/100''"
    "logMessage example_toFixed ''10:00:05'' (example_update ''completed'' 2 ''Training completed'')
             = ''[10:00:05] Training completed''"
    by (simp_all add: logMessage_def example_update_def show_nat.simps digit_char_def)
  have u: "status (example_update st e msg) = st" "current_epoch (example_update st e msg) = e"
    for st e msg by (simp_all add: example_update_def)
  from log_appended_only_on_change[of initial_progress example_toFixed "''10:00:06''"
      "answer (example_update ''failed'' 2 ''Training failed'')" example_polls
      "example_update ''preparing'' 0 ''Preparing dataset''"
      "example_update ''preparing'' 0 ''Preparing dataset''"
      "example_update ''training'' 1 ''Training''"
      "example_update ''training'' 1 ''Training''"
      "example_update ''training'' 2 ''Training''"
      "example_update ''completed'' 2 ''Training completed''"
      "''10:00:00''" "''10:00:02''" "''10:00:04''" "''10:00:05''" "''10:00:01''" "''10:00:03''"]
  have l: "logs (run_polls example_toFixed example_polls initial_progress)
       = [''[10:00:00] Preparing dataset'', ''[10:00:02] Training - Epoch 1/100'',
          ''[10:00:04] Training - Epoch 2/100'', ''[10:00:05] Training completed'']"
    unfolding m u example_polls_def by simp
  have r: "prevStatusRef (run_polls example_toFixed example_polls initial_progress) = Some ''completed''"
    using refs_are_last_observed[of initial_progress example_toFixed example_polls]
    by (simp add: initial_progress_def example_polls_def observed_def List.map_filter_def
        answer_def example_update_def)
  have "logs (pollTrainingStatus example_toFixed ''10:00:06''
              (answer (example_update ''failed'' 2 ''Training failed''))
              (run_polls example_toFixed example_polls initial_progress))
       \<noteq> logs (run_polls example_toFixed example_polls initial_progress)"
    using r l
    by (simp add: poll_observed answer_def shouldLog_iff u appendLog_def logMessage_def
        example_update_def)
  with l show ?thesis by simp
qed

text \<open>
  The dialog observed \<open>completed\<close> at epoch 100, was hidden and shown again, and observed
  the same state and epoch: a second line is appended.
\<close>

theorem log_appended_again_on_reshow_counterexample:
  "logs (tp_state completed_dialog) = [''[10:00:00] Training completed'']
   \<and> map_option status (trainingData (tp_state completed_dialog)) = Some ''completed''
   \<and> map_option current_epoch (trainingData (tp_state completed_dialog)) = Some 100
   \<and> status (example_update ''completed'' 100 ''Training completed'') = ''completed''
   \<and> current_epoch (example_update ''completed'' 100 ''Training completed'') = 100
   \<and> logs (tp_state reshown_dialog)
       = [''[10:00:00] Training completed'', ''[10:00:02] Training completed'']"
  by (simp add: reshown_dialog_def completed_dialog_def progress_run_def mount_def runEffect_def
      pollTrainingStatus_def answer_def example_update_def initial_progress_def shouldLog_def
      appendLog_def logMessage_def Let_def)

section \<open>Properties of the polling\<close>

lemma runEffect_interval:
  "tp_interval (fst (runEffect tf now result c)) = tp_isVisible (fst (runEffect tf now result c))
   \<and> tp_isVisible (fst (runEffect tf now result c)) = tp_isVisible c
   \<and> snd (runEffect tf now result c) = (if tp_isVisible c then 1 else 0)"
  by (simp add: runEffect_def)

lemma progress_step_interval:
  "tp_interval c = tp_isVisible c \<Longrightarrow>
     tp_interval (fst (progress_step tf c ev)) = tp_isVisible (fst (progress_step tf c ev))"
  by (cases ev) (simp_all add: runEffect_interval)

lemma progress_run_interval:
  "tp_interval c = tp_isVisible c \<Longrightarrow>
     tp_interval (progress_run tf c evs) = tp_isVisible (progress_run tf c evs)"
proof (induction evs arbitrary: c)
  case Nil
  then show ?case by (simp add: progress_run_def)
next
  case (Cons ev evs)
  from Cons.IH[OF progress_step_interval[OF Cons.prems, of tf ev]]
  show ?case by (simp add: progress_run_def)
qed

lemma mounted_interval:
  "tp_interval (progress_run tf (fst (mount tf v now0 r0)) evs)
     = tp_isVisible (progress_run tf (fst (mount tf v now0 r0)) evs)"
  by (rule progress_run_interval) (simp add: mount_def runEffect_interval)

lemma progress_step_requests:
  assumes "tp_interval c = tp_isVisible c"
  shows "0 < snd (progress_step tf c ev) \<longrightarrow> tp_isVisible (fst (progress_step tf c ev))"
  using assms by (cases ev) (simp_all add: runEffect_def)

lemma fetch_terminal:
  assumes "page_interval p = pollingCondition p" and "page_success data"
      and "ts_status (page_status data) = ''completed'' \<or> ts_status (page_status data) = ''failed''"
  shows "\<not> isTraining (fetchTrainingStatus (Some data) p)
       \<and> \<not> page_interval (fetchTrainingStatus (Some data) p)
       \<and> trainingStatus (fetchTrainingStatus (Some data) p) = page_status data"
  using assms
  by (auto simp: fetchTrainingStatus_def afterUpdate_def pollingEffect_def pollingCondition_def
      Let_def)

text \<open>
  Claim C5, as amended. In every state the dialog reaches from its mount, a step issues a
  request only if the dialog is visible after it; a tick issues none while the dialog is
  hidden and one while it is visible, whatever status has been observed. The training page
  has its own poller, which does not read the dialog's flag: once it observes
  \<open>completed\<close> or \<open>failed\<close> (its timer being registered as its effect leaves it) it is no
  longer training, its timer is cleared and a tick issues no request.
\<close>

theorem polling_follows_visibility_and_activity:
  assumes "c = progress_run tf (fst (mount tf v now0 r0)) evs"
  shows "(0 < snd (mount tf v now0 r0) \<longrightarrow> v)
       \<and> (0 < snd (progress_step tf c ev) \<longrightarrow> tp_isVisible (fst (progress_step tf c ev)))
       \<and> (\<not> tp_isVisible c \<longrightarrow> snd (progress_step tf c (Tick now result)) = 0)
       \<and> (tp_isVisible c \<longrightarrow> snd (progress_step tf c (Tick now result)) = 1)
       \<and> (page_interval p = pollingCondition p \<and> page_success data
            \<and> (ts_status (page_status data) = ''completed''
                 \<or> ts_status (page_status data) = ''failed'')
          \<longrightarrow> \<not> isTraining (fetchTrainingStatus (Some data) p)
            \<and> \<not> page_interval (fetchTrainingStatus (Some data) p)
            \<and> snd (page_tick result' (fetchTrainingStatus (Some data) p)) = 0)
       \<and> snd (page_tick result' (p\<lparr>showTrainingProgress := b\<rparr>)) = snd (page_tick result' p)"
proof -
  have inv: "tp_interval c = tp_isVisible c"
    unfolding assms by (rule mounted_interval)
  have "0 < snd (mount tf v now0 r0) \<longrightarrow> v"
    by (simp add: mount_def runEffect_def)
  moreover note progress_step_requests[OF inv, of tf ev]
  moreover have "\<not> tp_isVisible c \<longrightarrow> snd (progress_step tf c (Tick now result)) = 0"
    using inv by simp
  moreover have "tp_isVisible c \<longrightarrow> snd (progress_step tf c (Tick now result)) = 1"
    using inv by simp
  moreover have "page_interval p = pollingCondition p \<and> page_success data
            \<and> (ts_status (page_status data) = ''completed''
                 \<or> ts_status (page_status data) = ''failed'')
          \<longrightarrow> \<not> isTraining (fetchTrainingStatus (Some data) p)
            \<and> \<not> page_interval (fetchTrainingStatus (Some data) p)
            \<and> snd (page_tick result' (fetchTrainingStatus (Some data) p)) = 0"
    using fetch_terminal[where p = p and data = data] by (simp add: page_tick_def)
  moreover have "snd (page_tick result' (p\<lparr>showTrainingProgress := b\<rparr>)) = snd (page_tick result' p)"
    by (simp add: page_tick_def)
  ultimately show ?thesis by blast
qed

text \<open>
  The dialog has observed \<open>completed\<close> and is still visible: the next tick issues a request.
\<close>

theorem dialog_polls_after_completed_counterexample:
  "map_option status (trainingData (tp_state completed_dialog)) = Some ''completed''
   \<and> tp_isVisible completed_dialog
   \<and> snd (progress_step example_toFixed completed_dialog (Tick ''10:00:01'' None)) \<noteq> 0"
  by (simp add: completed_dialog_def mount_def runEffect_def pollTrainingStatus_def answer_def
      example_update_def initial_progress_def shouldLog_def Let_def)

theorem polling_follows_visibility_and_activity_witness:
  "hidden_dialog = progress_run example_toFixed
       (fst (mount example_toFixed True ''10:00:00''
               (answer (example_update ''completed'' 100 ''Training completed''))))
       [Tick ''10:00:01'' None, Render False ''10:00:02'' None]
   \<and> \<not> tp_isVisible hidden_dialog
   \<and> snd (progress_step example_toFixed hidden_dialog (Tick ''10:00:03'' None)) = 0
   \<and> snd (progress_step example_toFixed hidden_dialog (Render True ''10:00:03'' None)) = 1
   \<and> page_interval training_page = pollingCondition training_page
   \<and> page_interval training_page
   \<and> snd (page_tick None
        (fetchTrainingStatus
           (Some \<lparr>page_success = True, page_status = example_training_status ''completed''\<rparr>)
           training_page)) = 0"
proof -
  have h: "hidden_dialog = progress_run example_toFixed
       (fst (mount example_toFixed True ''10:00:00''
               (answer (example_update ''completed'' 100 ''Training completed''))))
       [Tick ''10:00:01'' None, Render False ''10:00:02'' None]"
    by (simp add: hidden_dialog_def completed_dialog_def)
  have v: "\<not> tp_isVisible hidden_dialog"
    by (simp add: hidden_dialog_def progress_run_def completed_dialog_def mount_def runEffect_def)
  have s: "snd (progress_step example_toFixed hidden_dialog (Render True ''10:00:03'' None)) = 1"
    using v by (simp add: runEffect_def)
  have p: "page_interval training_page" "page_interval training_page = pollingCondition training_page"
    by (simp_all add: training_page_def pollingCondition_def)
  from polling_follows_visibility_and_activity[OF h,
      where ev = "Tick ''10:00:03'' None" and now = "''10:00:03''" and result = None
        and data = "\<lparr>page_success = True, page_status = example_training_status ''completed''\<rparr>"
        and p = training_page and result' = None and b = False]
    v s p h
  show ?thesis by (simp add: example_training_status_def)
qed

end
